theory Spec2Isabelle
  imports Main
begin

section \<open>Go runtime: faults, strings, slices\<close>

text \<open>
  A Go run-time panic and an error return are values of \<open>error\<close>; a function that can
  fault returns \<open>error + 'a\<close> with \<open>Inl\<close> for the fault. Go strings are byte sequences and
  are indexed by byte, so a Go string is a \<open>string\<close> (a list of 8-bit \<open>char\<close>). Go's \<open>int\<close>
  is modelled as \<open>int\<close>: the only integers in the modelled code are line counters, node
  counters and string indices, all bounded by the size of the input.
\<close>

datatype error =
    PanicSliceBounds
  | PanicIndexRange
  | PanicNilMap
  | ParseError string

text \<open>\<open>s[i:]\<close>, \<open>s[:j]\<close> and \<open>s[i]\<close>: out of range panics.\<close>

definition sliceFrom :: "string \<Rightarrow> int \<Rightarrow> error + string" where
  "sliceFrom s i =
     (if 0 \<le> i \<and> i \<le> int (length s) then Inr (drop (nat i) s) else Inl PanicSliceBounds)"

definition sliceTo :: "string \<Rightarrow> int \<Rightarrow> error + string" where
  "sliceTo s j =
     (if 0 \<le> j \<and> j \<le> int (length s) then Inr (take (nat j) s) else Inl PanicSliceBounds)"

definition byteAt :: "string \<Rightarrow> int \<Rightarrow> error + char" where
  "byteAt s i =
     (if 0 \<le> i \<and> i < int (length s) then Inr (s ! nat i) else Inl PanicIndexRange)"

subsection \<open>Package strings\<close>

definition HasPrefix :: "string \<Rightarrow> string \<Rightarrow> bool" where
  "HasPrefix s pre = (length pre \<le> length s \<and> take (length pre) s = pre)"

definition HasSuffix :: "string \<Rightarrow> string \<Rightarrow> bool" where
  "HasSuffix s suf = (length suf \<le> length s \<and> drop (length s - length suf) s = suf)"

definition TrimPrefix :: "string \<Rightarrow> string \<Rightarrow> string" where
  "TrimPrefix s pre = (if HasPrefix s pre then drop (length pre) s else s)"

text \<open>\<open>strings.Index\<close>: the byte index of the first occurrence, or -1.\<close>

fun Index :: "string \<Rightarrow> string \<Rightarrow> int" where
  "Index [] sub = (if sub = [] then 0 else - 1)"
| "Index (c # s) sub =
     (if HasPrefix (c # s) sub then 0
      else (let r = Index s sub in if r < 0 then - 1 else r + 1))"

definition Contains :: "string \<Rightarrow> string \<Rightarrow> bool" where
  "Contains s sub = (0 \<le> Index s sub)"

text \<open>
  \<open>strings.Trim(s, cutset)\<close> for an ASCII cutset removes the leading and trailing bytes
  that are in the cutset.
\<close>

definition Trim :: "string \<Rightarrow> string \<Rightarrow> string" where
  "Trim s cutset =
     rev (dropWhile (\<lambda>c. c \<in> set cutset) (rev (dropWhile (\<lambda>c. c \<in> set cutset) s)))"

text \<open>
  \<open>strings.TrimSpace\<close> removes leading and trailing white space as \<open>unicode.IsSpace\<close>
  defines it: the six ASCII space bytes, and in UTF-8 the code points U+0085, U+00A0,
  U+1680, U+2000 to U+200A, U+2028, U+2029, U+202F, U+205F and U+3000. A byte that does
  not start one of these encodings decodes to a rune that is not a space, so trimming
  stops there.
\<close>

definition asciiSpace :: "char \<Rightarrow> bool" where
  "asciiSpace c = (c \<in> set [CHR 0x09, CHR 0x0A, CHR 0x0B, CHR 0x0C, CHR 0x0D, CHR 0x20])"

definition unicodeSpaces :: "string list" where
  "unicodeSpaces =
     [[CHR 0xC2, CHR 0x85], [CHR 0xC2, CHR 0xA0], [CHR 0xE1, CHR 0x9A, CHR 0x80],
      [CHR 0xE2, CHR 0x80, CHR 0x80], [CHR 0xE2, CHR 0x80, CHR 0x81],
      [CHR 0xE2, CHR 0x80, CHR 0x82], [CHR 0xE2, CHR 0x80, CHR 0x83],
      [CHR 0xE2, CHR 0x80, CHR 0x84], [CHR 0xE2, CHR 0x80, CHR 0x85],
      [CHR 0xE2, CHR 0x80, CHR 0x86], [CHR 0xE2, CHR 0x80, CHR 0x87],
      [CHR 0xE2, CHR 0x80, CHR 0x88], [CHR 0xE2, CHR 0x80, CHR 0x89],
      [CHR 0xE2, CHR 0x80, CHR 0x8A], [CHR 0xE2, CHR 0x80, CHR 0xA8],
      [CHR 0xE2, CHR 0x80, CHR 0xA9], [CHR 0xE2, CHR 0x80, CHR 0xAF],
      [CHR 0xE2, CHR 0x81, CHR 0x9F], [CHR 0xE3, CHR 0x80, CHR 0x80]]"

text \<open>The width in bytes of the leading (trailing) rune when it is a space, else 0.\<close>

definition spacePrefixLen :: "string \<Rightarrow> nat" where
  "spacePrefixLen s =
     (case s of
        [] \<Rightarrow> 0
      | c # _ \<Rightarrow>
          if asciiSpace c then 1
          else (case find (HasPrefix s) unicodeSpaces of None \<Rightarrow> 0 | Some p \<Rightarrow> length p))"

definition spaceSuffixLen :: "string \<Rightarrow> nat" where
  "spaceSuffixLen s =
     (if s = [] then 0
      else if asciiSpace (last s) then 1
      else (case find (HasSuffix s) unicodeSpaces of None \<Rightarrow> 0 | Some p \<Rightarrow> length p))"

function trimLeftSpace :: "string \<Rightarrow> string" where
  "trimLeftSpace s =
     (if spacePrefixLen s = 0 then s else trimLeftSpace (drop (spacePrefixLen s) s))"
  by pat_completeness auto
termination
proof (relation "measure length")
  show "wf (measure length)" by simp
next
  fix s :: string
  assume "spacePrefixLen s \<noteq> 0"
  then have "s \<noteq> []" by (auto simp: spacePrefixLen_def)
  with \<open>spacePrefixLen s \<noteq> 0\<close> show "(drop (spacePrefixLen s) s, s) \<in> measure length"
    by simp
qed

function trimRightSpace :: "string \<Rightarrow> string" where
  "trimRightSpace s =
     (if spaceSuffixLen s = 0 then s
      else trimRightSpace (take (length s - spaceSuffixLen s) s))"
  by pat_completeness auto
termination
proof (relation "measure length")
  show "wf (measure length)" by simp
next
  fix s :: string
  assume "spaceSuffixLen s \<noteq> 0"
  then have "s \<noteq> []" by (auto simp: spaceSuffixLen_def)
  with \<open>spaceSuffixLen s \<noteq> 0\<close>
  show "(take (length s - spaceSuffixLen s) s, s) \<in> measure length"
    by simp
qed

definition TrimSpace :: "string \<Rightarrow> string" where
  "TrimSpace s = trimRightSpace (trimLeftSpace s)"

section \<open>internal/git/diff.go: the diff model and parser\<close>

datatype ChangeType = Added | Removed | Modified | Context

record DiffChange =
  Type :: ChangeType
  Line :: string
  LineNum :: int
  Function :: string

record FileDiff =
  OldPath :: string
  NewPath :: string
  Changes :: "DiffChange list"
  Functions :: "string list"

record DiffResult =
  Files :: "FileDiff list"

text \<open>
  \<open>bufio.Scanner\<close> with the default split function \<open>ScanLines\<close>: the lines of the text
  without their terminating newline and without one trailing carriage return; a last line
  with no newline is a line when it is not empty. The scanner's buffer is limited to
  \<open>MaxScanTokenSize\<close> bytes: on a line that does not fit, \<open>Scan\<close> returns false and the
  loop of \<open>parseDiff\<close> ends there (the code does not look at \<open>scanner.Err()\<close>).
\<close>

definition MaxScanTokenSize :: nat where
  "MaxScanTokenSize = 65536"

definition dropCR :: "string \<Rightarrow> string" where
  "dropCR s = (if s \<noteq> [] \<and> last s = CHR 0x0D then butlast s else s)"

fun splitLines :: "string \<Rightarrow> string \<Rightarrow> string list" where
  "splitLines cur [] =
     (if cur = [] then [] else if length cur < MaxScanTokenSize then [dropCR cur] else [])"
| "splitLines cur (c # s) =
     (if c = CHR 0x0A
      then (if length cur < MaxScanTokenSize then dropCR cur # splitLines [] s else [])
      else splitLines (cur @ [c]) s)"

definition scanLines :: "string \<Rightarrow> string list" where
  "scanLines text = splitLines [] text"

text \<open>
  The two regular expressions of \<open>parseDiff\<close>, matched against one line (which holds no
  newline). \<open>^diff --git a/(.*) b/(.*)$\<close>: the first group is greedy, so the line is
  cut at the last \<open>" b/"\<close> after the prefix.
\<close>

fun lastIndexOf :: "string \<Rightarrow> string \<Rightarrow> nat option" where
  "lastIndexOf [] sub = (if sub = [] then Some 0 else None)"
| "lastIndexOf (c # s) sub =
     (case lastIndexOf s sub of
        Some r \<Rightarrow> Some (Suc r)
      | None \<Rightarrow> if HasPrefix (c # s) sub then Some 0 else None)"

definition fileHeaderRegex :: "string \<Rightarrow> (string \<times> string) option" where
  "fileHeaderRegex line =
     (if HasPrefix line ''diff --git a/''
      then (let rest = drop 13 line in
            case lastIndexOf rest '' b/'' of
              None \<Rightarrow> None
            | Some i \<Rightarrow> Some (take i rest, drop (i + 3) rest))
      else None)"

text \<open>
  \<open>^@@ -(\d+),?(\d*) \+(\d+),?(\d*) @@ ?(.*)$\<close>: only the fifth group is read by the
  code, so the match returns that group. \<open>rangeRegex\<close> matches \<open>(\d+),?(\d*)\<close> at the
  start of its argument and returns what follows.
\<close>

definition isDigit :: "char \<Rightarrow> bool" where
  "isDigit c = (c \<in> set ''0123456789'')"

definition rangeRegex :: "string \<Rightarrow> string option" where
  "rangeRegex s =
     (if takeWhile isDigit s = [] then None
      else (let r = dropWhile isDigit s in
            Some (dropWhile isDigit (if HasPrefix r '','' then drop 1 r else r))))"

definition hunkHeaderRegex :: "string \<Rightarrow> string option" where
  "hunkHeaderRegex line =
     (if HasPrefix line ''@@ -''
      then (case rangeRegex (drop 4 line) of
              None \<Rightarrow> None
            | Some r \<Rightarrow>
                if HasPrefix r '' +''
                then (case rangeRegex (drop 2 r) of
                        None \<Rightarrow> None
                      | Some r' \<Rightarrow>
                          if HasPrefix r' '' @@''
                          then (let t = drop 3 r' in
                                Some (if HasPrefix t '' '' then drop 1 t else t))
                          else None)
                else None)
      else None)"

text \<open>\<open>(fd *FileDiff) addFunctionIfModified\<close>\<close>

definition addFunctionIfModified :: "FileDiff \<Rightarrow> string \<Rightarrow> FileDiff" where
  "addFunctionIfModified fd functionName =
     (if functionName = [] then fd
      else if functionName \<in> set (Functions fd) then fd
      else fd\<lparr>Functions := Functions fd @ [functionName]\<rparr>)"

text \<open>\<open>extractFunctionName\<close>, with every slice expression checked as Go checks it.\<close>

definition extractFunctionName :: "string \<Rightarrow> error + string" where
  "extractFunctionName line0 =
     (let line1 = TrimSpace line0 in
      case (if HasPrefix line1 ''+'' \<or> HasPrefix line1 ''-'' \<or> HasPrefix line1 '' ''
            then map_sum id TrimSpace (sliceFrom line1 1) else Inr line1) of
        Inl e \<Rightarrow> Inl e
      | Inr line2 \<Rightarrow>
          if \<not> HasPrefix line2 ''func '' then Inr []
          else
            (let line3 = TrimSpace (TrimPrefix line2 ''func '') in
             case (if HasPrefix line3 ''(''
                   then (let closeParen = Index line3 '') '' in
                         if closeParen \<noteq> - 1
                         then map_sum id TrimSpace (sliceFrom line3 (closeParen + 2))
                         else Inr line3)
                   else Inr line3) of
               Inl e \<Rightarrow> Inl e
             | Inr line4 \<Rightarrow>
                 (let parenIndex = Index line4 ''('' in
                  if parenIndex = - 1 then Inr []
                  else (case sliceTo line4 parenIndex of
                          Inl e \<Rightarrow> Inl e
                        | Inr name \<Rightarrow>
                            Inr (Trim (TrimSpace name) [CHR '' '', CHR 0x09, CHR ''*'',
                                   CHR ''&'', CHR ''['', CHR '']''])))))"

text \<open>\<open>parseDiffLine\<close>: \<open>None\<close> is the nil result (the line is skipped).\<close>

definition parseDiffLine :: "string \<Rightarrow> string \<Rightarrow> error + DiffChange option" where
  "parseDiffLine line currentFunction =
     (if length line = 0 then Inr None
      else (case byteAt line 0 of
              Inl e \<Rightarrow> Inl e
            | Inr c \<Rightarrow>
                if c = CHR ''+'' then
                  map_sum id (\<lambda>l. Some \<lparr>Type = Added, Line = l, LineNum = 0,
                                         Function = currentFunction\<rparr>) (sliceFrom line 1)
                else if c = CHR ''-'' then
                  map_sum id (\<lambda>l. Some \<lparr>Type = Removed, Line = l, LineNum = 0,
                                         Function = currentFunction\<rparr>) (sliceFrom line 1)
                else if c = CHR '' '' then
                  map_sum id (\<lambda>l. Some \<lparr>Type = Context, Line = l, LineNum = 0,
                                         Function = currentFunction\<rparr>) (sliceFrom line 1)
                else Inr None))"

text \<open>
  The local variables of the scan loop of \<open>parseDiff\<close>: \<open>result.Files\<close>, \<open>currentFile\<close>
  (\<open>None\<close> is nil), \<open>currentFunction\<close> and \<open>lineNum\<close>.
\<close>

record scanState =
  resultFiles :: "FileDiff list"
  currentFile :: "FileDiff option"
  currentFunction :: string
  lineNum :: int

definition isMetadata :: "string \<Rightarrow> bool" where
  "isMetadata line =
     (HasPrefix line ''index '' \<or> HasPrefix line ''--- '' \<or> HasPrefix line ''+++ '')"

text \<open>The content branch of the loop body, for a non-nil \<open>currentFile\<close>.\<close>

definition contentLine :: "scanState \<Rightarrow> FileDiff \<Rightarrow> string \<Rightarrow> error + scanState" where
  "contentLine st cf line =
     (case parseDiffLine line (currentFunction st) of
        Inl e \<Rightarrow> Inl e
      | Inr None \<Rightarrow> Inr (st\<lparr>lineNum := lineNum st + 1\<rparr>)
      | Inr (Some change0) \<Rightarrow>
          (let change = change0\<lparr>LineNum := lineNum st\<rparr>;
               cf1 = cf\<lparr>Changes := Changes cf @ [change]\<rparr>
           in if (Type change = Added \<or> Type change = Context) \<and> Contains (Line change) ''func ''
              then (case extractFunctionName (Line change) of
                      Inl e \<Rightarrow> Inl e
                    | Inr funcName \<Rightarrow>
                        if funcName \<noteq> []
                        then Inr (st\<lparr>currentFile := Some (addFunctionIfModified cf1 funcName),
                                     currentFunction := funcName,
                                     lineNum := lineNum st + 1\<rparr>)
                        else Inr (st\<lparr>currentFile := Some cf1, lineNum := lineNum st + 1\<rparr>))
              else Inr (st\<lparr>currentFile := Some cf1, lineNum := lineNum st + 1\<rparr>)))"

text \<open>One iteration of the loop body.\<close>

definition scanStep :: "scanState \<Rightarrow> string \<Rightarrow> error + scanState" where
  "scanStep st line =
     (case fileHeaderRegex line of
        Some (old, new) \<Rightarrow>
          Inr (st\<lparr>resultFiles :=
                     (case currentFile st of
                        None \<Rightarrow> resultFiles st
                      | Some cf \<Rightarrow> resultFiles st @ [cf]),
                   currentFile :=
                     Some \<lparr>OldPath = old, NewPath = new, Changes = [], Functions = []\<rparr>,
                   currentFunction := [],
                   lineNum := 0\<rparr>)
      | None \<Rightarrow>
          (case hunkHeaderRegex line of
             Some funcContext \<Rightarrow>
               if funcContext \<noteq> []
               then (case extractFunctionName funcContext of
                       Inl e \<Rightarrow> Inl e
                     | Inr extractedFunc \<Rightarrow>
                         if extractedFunc \<noteq> []
                         then Inr (st\<lparr>currentFile :=
                                         map_option (\<lambda>cf. addFunctionIfModified cf extractedFunc)
                                           (currentFile st),
                                       currentFunction := extractedFunc,
                                       lineNum := 0\<rparr>)
                         else Inr (st\<lparr>lineNum := 0\<rparr>))
               else Inr (st\<lparr>lineNum := 0\<rparr>)
           | None \<Rightarrow>
               if isMetadata line then Inr st
               else (case currentFile st of
                       None \<Rightarrow> Inr st
                     | Some cf \<Rightarrow> contentLine st cf line)))"

fun scanLoop :: "scanState \<Rightarrow> string list \<Rightarrow> error + scanState" where
  "scanLoop st [] = Inr st"
| "scanLoop st (line # ls) =
     (case scanStep st line of Inl e \<Rightarrow> Inl e | Inr st' \<Rightarrow> scanLoop st' ls)"

definition initialState :: scanState where
  "initialState = \<lparr>resultFiles = [], currentFile = None, currentFunction = [], lineNum = 0\<rparr>"

text \<open>
  \<open>parseDiff\<close> returns \<open>(result, nil)\<close> on every path; \<open>Inr\<close> is that return, \<open>Inl\<close> would
  be a panic.
\<close>

definition parseDiff :: "string \<Rightarrow> error + DiffResult" where
  "parseDiff diffText =
     (case scanLoop initialState (scanLines diffText) of
        Inl e \<Rightarrow> Inl e
      | Inr st \<Rightarrow>
          Inr \<lparr>Files = (case currentFile st of
                           None \<Rightarrow> resultFiles st
                         | Some cf \<Rightarrow> resultFiles st @ [cf])\<rparr>)"

definition ParseDiff :: "string \<Rightarrow> error + DiffResult" where
  "ParseDiff diffText = parseDiff diffText"

text \<open>
  \<open>GetModifiedFunctions\<close>: the keys of the map \<open>functionsWithChanges\<close> (all its values are
  true, so the map is its key set). The slice returned lists these keys once each, in the
  order of Go's map iteration, which is unspecified: the result is modelled as the set.
\<close>

definition noteChange :: "string set \<Rightarrow> DiffChange \<Rightarrow> string set" where
  "noteChange functionsWithChanges change =
     (if Type change = Added \<or> Type change = Removed
      then (if Function change \<noteq> [] then insert (Function change) functionsWithChanges
            else functionsWithChanges)
      else functionsWithChanges)"

definition GetModifiedFunctions :: "FileDiff \<Rightarrow> string set" where
  "GetModifiedFunctions fd = foldl noteChange {} (Changes fd)"

text \<open>\<open>FilterGoFiles\<close>\<close>

definition isGoSourcePath :: "string \<Rightarrow> bool" where
  "isGoSourcePath path = (HasSuffix path ''.go'' \<and> \<not> HasSuffix path ''_test.go'')"

definition FilterGoFiles :: "DiffResult \<Rightarrow> DiffResult" where
  "FilterGoFiles dr =
     \<lparr>Files = foldl (\<lambda>filtered file.
                       if HasSuffix (NewPath file) ''.go'' \<and> \<not> HasSuffix (NewPath file) ''_test.go''
                       then filtered @ [file] else filtered) [] (Files dr)\<rparr>"

section \<open>internal/parser/ast.go: the syntax analyzer\<close>

subsection \<open>The syntax tree of go/ast, as far as the analyzer reads it\<close>

text \<open>
  Type and value expressions: the cases of \<open>extractTypeString\<close> and \<open>extractValue\<close>.
  \<open>InterfaceType\<close>, \<open>StructType\<close> and \<open>FuncType\<close> are rendered without a look at their
  contents; \<open>OtherExpr\<close> is every expression kind the two functions have no case for
  (parenthesised, indexed, variadic, ...). The length of an \<open>ArrayType\<close> is only tested
  for nil.
\<close>

datatype ChanDir = SEND | RECV | SEND_RECV

datatype Expr =
    Ident string
  | StarExpr Expr
  | ArrayType "Expr option" Expr
  | MapType Expr Expr
  | ChanType ChanDir Expr
  | InterfaceType
  | StructType
  | FuncType
  | SelectorExpr Expr string
  | BasicLit string
  | OtherExpr

text \<open>\<open>ast.Field\<close>: the names bound and their type.\<close>

record Field =
  Names :: "string list"
  FieldType :: Expr

datatype Token = Token_CONST | Token_VAR | Token_TYPE | Token_IMPORT

record ImportSpec =
  SpecName :: "string option"
  SpecPath :: string

datatype Spec =
    ValueSpec "string list" "Expr list"
  | TypeSpec string Expr
  | ImportSpecS ImportSpec

record GenDecl =
  Tok :: Token
  Specs :: "Spec list"

text \<open>
  The nodes below a declaration, as \<open>ast.Inspect\<close> visits them: each node has the
  dynamic type the callbacks switch on, with the fields they read, and its children in
  the order of \<open>ast.Walk\<close>. The first child of a \<open>CallExpr\<close> is its \<open>Fun\<close>; a
  \<open>SelectorExpr\<close> carries \<open>Sel.Name\<close>, an \<open>Ident\<close> its \<open>Name\<close>; a declaration statement in
  a function body holds a \<open>GenDecl\<close>.
\<close>

datatype NodeKind =
    CallExprK
  | DeferStmtK
  | GoStmtK
  | IfStmtK
  | ForStmtK
  | RangeStmtK
  | SwitchStmtK
  | TypeSwitchStmtK
  | SelectStmtK
  | StarExprK
  | ChanTypeK
  | InterfaceTypeK
  | IdentK string
  | SelectorExprK string
  | GenDeclK GenDecl
  | OtherK

datatype Node = Node NodeKind "Node list"

text \<open>
  \<open>ast.BlockStmt\<close>, with the lines of its two ends as the file set gives them, and
  \<open>ast.FuncDecl\<close>: \<open>DeclName\<close> is \<open>Name.Name\<close>, \<open>Params\<close> and \<open>Results\<close> are \<open>Type.Params\<close> and
  \<open>Type.Results\<close> (\<open>None\<close> is nil), \<open>PosLine\<close> and \<open>EndPosLine\<close> are the lines of \<open>Pos()\<close> and
  \<open>End()\<close>.
\<close>

record BlockStmt =
  BlockPosLine :: int
  BlockEndLine :: int
  List :: "Node list"

record FuncDecl =
  Doc :: "string list option"
  Recv :: "Field list option"
  DeclName :: string
  Params :: "Field list option"
  Results :: "Field list option"
  DeclBody :: "BlockStmt option"
  PosLine :: int
  EndPosLine :: int

text \<open>
  A top-level declaration: a function, or a general declaration with the nodes below it
  (a function literal in an initializer has a body of its own).
\<close>

datatype Decl = FuncDeclD FuncDecl | GenDeclD GenDecl "Node list"

record File =
  PkgName :: string
  FileImports :: "ImportSpec list"
  Decls :: "Decl list"

subsection \<open>The analysis records\<close>

record ImportInfo =
  ImportName :: string
  ImportPath :: string

record TypeInfo =
  TypeName :: string
  Kind :: string
  Fields :: "string list"

record ParameterInfo =
  ParamName :: string
  ParamType :: string

record ReturnInfo =
  RetName :: string
  RetType :: string

record ReceiverInfo =
  RecvName :: string
  RecvType :: string

record ComplexityInfo =
  HasErrors :: bool
  HasPointers :: bool
  HasInterfaces :: bool
  HasChannels :: bool
  HasGoroutines :: bool
  HasDefers :: bool
  HasPanic :: bool
  Dependencies :: "string list"
  CyclomaticComplexity :: int
  ControlFlowCount :: int

record FunctionInfo =
  Name :: string
  Package :: string
  File :: string
  StartLine :: int
  EndLine :: int
  Signature :: string
  Parameters :: "ParameterInfo list"
  Returns :: "ReturnInfo list"
  IsMethod :: bool
  Receiver :: "ReceiverInfo option"
  Comments :: "string list"
  Complexity :: ComplexityInfo
  Body :: string

text \<open>A Go map is nil (\<open>None\<close>) until it is made; a nil map reads as empty.\<close>

record FileAnalysis =
  PackageName :: string
  Imports :: "ImportInfo list"
  FileFunctions :: "FunctionInfo list"
  Constants :: "(string \<rightharpoonup> string) option"
  Variables :: "(string \<rightharpoonup> string) option"
  Types :: "TypeInfo list"

text \<open>\<open>m[k] = v\<close>: an assignment to an entry of a nil map panics.\<close>

definition mapAssign ::
  "(string \<rightharpoonup> string) option \<Rightarrow> string \<Rightarrow> string \<Rightarrow> error + (string \<rightharpoonup> string) option" where
  "mapAssign m k v = (case m of None \<Rightarrow> Inl PanicNilMap | Some f \<Rightarrow> Inr (Some (f(k \<mapsto> v))))"

definition zeroComplexity :: ComplexityInfo where
  "zeroComplexity =
     \<lparr>HasErrors = False, HasPointers = False, HasInterfaces = False, HasChannels = False,
      HasGoroutines = False, HasDefers = False, HasPanic = False, Dependencies = [],
      CyclomaticComplexity = 0, ControlFlowCount = 0\<rparr>"

subsection \<open>The functions of ast.go\<close>

fun extractTypeString :: "Expr \<Rightarrow> string" where
  "extractTypeString (Ident name) = name"
| "extractTypeString (StarExpr x) = ''*'' @ extractTypeString x"
| "extractTypeString (ArrayType len elt) =
     (if len = None then ''[]'' @ extractTypeString elt
      else ''[...]'' @ extractTypeString elt)"
| "extractTypeString (MapType k v) =
     ''map['' @ extractTypeString k @ '']'' @ extractTypeString v"
| "extractTypeString (ChanType dir v) =
     (case dir of
        SEND \<Rightarrow> ''chan<- '' @ extractTypeString v
      | RECV \<Rightarrow> ''<-chan '' @ extractTypeString v
      | SEND_RECV \<Rightarrow> ''chan '' @ extractTypeString v)"
| "extractTypeString InterfaceType = ''interface{}''"
| "extractTypeString StructType = ''struct{}''"
| "extractTypeString FuncType = ''func(...)''"
| "extractTypeString (SelectorExpr x sel) = extractTypeString x @ ''.'' @ sel"
| "extractTypeString (BasicLit v) = ''unknown''"
| "extractTypeString OtherExpr = ''unknown''"

fun extractValue :: "Expr \<Rightarrow> string" where
  "extractValue (BasicLit v) = v"
| "extractValue (Ident name) = name"
| "extractValue e = ''unknown''"

text \<open>The callback of \<open>analyzeComplexity\<close> at one node.\<close>

definition isControlFlow :: "NodeKind \<Rightarrow> bool" where
  "isControlFlow k =
     (k = IfStmtK \<or> k = ForStmtK \<or> k = RangeStmtK \<or> k = SwitchStmtK \<or>
      k = TypeSwitchStmtK \<or> k = SelectStmtK)"

definition funKind :: "Node list \<Rightarrow> NodeKind" where
  "funKind children = (case children of [] \<Rightarrow> OtherK | Node k cs # rest \<Rightarrow> k)"

definition complexityAt :: "ComplexityInfo \<Rightarrow> NodeKind \<Rightarrow> Node list \<Rightarrow> ComplexityInfo" where
  "complexityAt complexity k children =
     (if k = CallExprK then
        (let c1 = (case funKind children of
                     IdentK name \<Rightarrow> if name = ''panic'' then complexity\<lparr>HasPanic := True\<rparr>
                                    else complexity
                   | _ \<Rightarrow> complexity)
         in (case funKind children of
               SelectorExprK sel \<Rightarrow> if sel = ''Error'' then c1\<lparr>HasErrors := True\<rparr> else c1
             | _ \<Rightarrow> c1))
      else if k = DeferStmtK then complexity\<lparr>HasDefers := True\<rparr>
      else if k = GoStmtK then complexity\<lparr>HasGoroutines := True\<rparr>
      else if isControlFlow k then
        complexity\<lparr>ControlFlowCount := ControlFlowCount complexity + 1\<rparr>
      else if k = StarExprK then complexity\<lparr>HasPointers := True\<rparr>
      else if k = ChanTypeK then complexity\<lparr>HasChannels := True\<rparr>
      else if k = InterfaceTypeK then complexity\<lparr>HasInterfaces := True\<rparr>
      else (case k of
              IdentK name \<Rightarrow> if name = ''error'' then complexity\<lparr>HasErrors := True\<rparr>
                             else complexity
            | _ \<Rightarrow> complexity))"

text \<open>\<open>ast.Inspect\<close> with that callback: every node, parents before children.\<close>

fun inspectComplexity :: "ComplexityInfo \<Rightarrow> Node \<Rightarrow> ComplexityInfo"
  and inspectComplexityList :: "ComplexityInfo \<Rightarrow> Node list \<Rightarrow> ComplexityInfo" where
  "inspectComplexity complexity (Node k children) =
     inspectComplexityList (complexityAt complexity k children) children"
| "inspectComplexityList complexity [] = complexity"
| "inspectComplexityList complexity (n # ns) =
     inspectComplexityList (inspectComplexity complexity n) ns"

text \<open>The root of the inspection is the block itself, for which the callback has no case.\<close>

definition analyzeComplexity :: "BlockStmt \<Rightarrow> ComplexityInfo" where
  "analyzeComplexity body =
     (let complexity = inspectComplexity zeroComplexity (Node OtherK (List body))
      in complexity\<lparr>CyclomaticComplexity := ControlFlowCount complexity + 1\<rparr>)"

text \<open>\<open>buildSignatureString\<close>; the two loops write the entries, separated by \<open>", "\<close>.\<close>

fun writeEntries :: "string \<Rightarrow> (string \<times> string) list \<Rightarrow> string" where
  "writeEntries sig [] = sig"
| "writeEntries sig ((name, ty) # rest) =
     writeEntries (sig @ (if name \<noteq> [] then name @ '' '' else []) @ ty
                   @ (if rest \<noteq> [] then '', '' else [])) rest"

definition buildSignatureString :: "FunctionInfo \<Rightarrow> string" where
  "buildSignatureString funcInfo =
     (let sig0 = ''func '';
          sig1 = (case (IsMethod funcInfo, Receiver funcInfo) of
                    (True, Some r) \<Rightarrow>
                      sig0 @ ''('' @ (if RecvName r \<noteq> [] then RecvName r @ '' '' else [])
                        @ RecvType r @ '') ''
                  | _ \<Rightarrow> sig0);
          sig2 = sig1 @ Name funcInfo @ ''('';
          sig3 = writeEntries sig2
                   (map (\<lambda>p. (ParamName p, ParamType p)) (Parameters funcInfo));
          sig4 = sig3 @ '')''
      in if length (Returns funcInfo) > 0
         then (let sig5 = sig4 @ '' '';
                   sig6 = (if length (Returns funcInfo) > 1 then sig5 @ ''('' else sig5);
                   sig7 = writeEntries sig6
                            (map (\<lambda>r. (RetName r, RetType r)) (Returns funcInfo))
               in if length (Returns funcInfo) > 1 then sig7 @ '')'' else sig7)
         else sig4)"

text \<open>\<open>fmt.Sprintf("%d", n)\<close>\<close>

function natToDec :: "nat \<Rightarrow> string" where
  "natToDec n =
     (if n < 10 then [''0123456789'' ! n]
      else natToDec (n div 10) @ [''0123456789'' ! (n mod 10)])"
  by pat_completeness auto
termination
  by (relation "measure id") auto

definition intToDec :: "int \<Rightarrow> string" where
  "intToDec i = (if i < 0 then ''-'' @ natToDec (nat (- i)) else natToDec (nat i))"

definition extractBodyString :: "BlockStmt \<Rightarrow> string" where
  "extractBodyString body =
     ''// Function body from line '' @ intToDec (BlockPosLine body) @ '' to ''
       @ intToDec (BlockEndLine body)"

text \<open>
  \<open>analyzeFunctionDecl\<close>. \<open>pkgOf\<close> stands for \<open>filepath.Base(filepath.Dir(filePath))\<close> of
  the standard library.
\<close>

definition fieldParameters :: "Field \<Rightarrow> ParameterInfo list" where
  "fieldParameters param =
     (let typeStr = extractTypeString (FieldType param)
      in if length (Names param) > 0
         then map (\<lambda>name. \<lparr>ParamName = name, ParamType = typeStr\<rparr>) (Names param)
         else [\<lparr>ParamName = [], ParamType = typeStr\<rparr>])"

definition fieldReturns :: "Field \<Rightarrow> ReturnInfo list" where
  "fieldReturns result =
     (let typeStr = extractTypeString (FieldType result)
      in if length (Names result) > 0
         then map (\<lambda>name. \<lparr>RetName = name, RetType = typeStr\<rparr>) (Names result)
         else [\<lparr>RetName = [], RetType = typeStr\<rparr>])"

definition declReceiver :: "FuncDecl \<Rightarrow> ReceiverInfo option" where
  "declReceiver funcDecl =
     (case Recv funcDecl of
        None \<Rightarrow> None
      | Some [] \<Rightarrow> None
      | Some (receiver # rest) \<Rightarrow>
          Some \<lparr>RecvName = (case Names receiver of [] \<Rightarrow> [] | n # ns \<Rightarrow> n),
                RecvType = extractTypeString (FieldType receiver)\<rparr>)"

definition signatureBackfill :: "FunctionInfo \<Rightarrow> FunctionInfo" where
  "signatureBackfill funcInfo =
     (let c1 = foldl (\<lambda>c ret. if RetType ret = ''error'' then c\<lparr>HasErrors := True\<rparr> else c)
                 (Complexity funcInfo) (Returns funcInfo);
          c2 = foldl (\<lambda>c param. if HasPrefix (ParamType param) ''*''
                                 then c\<lparr>HasPointers := True\<rparr> else c)
                 c1 (Parameters funcInfo);
          c3 = (case (IsMethod funcInfo, Receiver funcInfo) of
                  (True, Some r) \<Rightarrow>
                    if HasPrefix (RecvType r) ''*'' then c2\<lparr>HasPointers := True\<rparr> else c2
                | _ \<Rightarrow> c2)
      in funcInfo\<lparr>Complexity := c3\<rparr>)"

definition analyzeFunctionDecl :: "(string \<Rightarrow> string) \<Rightarrow> FuncDecl \<Rightarrow> string \<Rightarrow> FunctionInfo" where
  "analyzeFunctionDecl pkgOf funcDecl filePath =
     (let f0 = \<lparr>Name = DeclName funcDecl, Package = pkgOf filePath, File = filePath,
                StartLine = PosLine funcDecl, EndLine = EndPosLine funcDecl,
                Signature = [],
                Parameters = (case Params funcDecl of
                                None \<Rightarrow> []
                              | Some fs \<Rightarrow> concat (map fieldParameters fs)),
                Returns = (case Results funcDecl of
                             None \<Rightarrow> []
                           | Some fs \<Rightarrow> concat (map fieldReturns fs)),
                IsMethod = (declReceiver funcDecl \<noteq> None),
                Receiver = declReceiver funcDecl,
                Comments = (case Doc funcDecl of
                              None \<Rightarrow> []
                            | Some comments \<Rightarrow> map (\<lambda>text. TrimPrefix text ''//'') comments),
                Complexity = zeroComplexity,
                Body = []\<rparr>;
          f1 = f0\<lparr>Signature := buildSignatureString f0\<rparr>;
          f2 = (case DeclBody funcDecl of
                  None \<Rightarrow> f1
                | Some body \<Rightarrow> f1\<lparr>Complexity := analyzeComplexity body,
                                  Body := extractBodyString body\<rparr>)
      in signatureBackfill f2)"

text \<open>\<open>analyzeGenDecl\<close>: the loop over the specs, and in a value spec over the names.\<close>

fun assignValues ::
  "(string \<rightharpoonup> string) option \<Rightarrow> nat \<Rightarrow> string list \<Rightarrow> Expr list
     \<Rightarrow> error + (string \<rightharpoonup> string) option" where
  "assignValues m i [] values = Inr m"
| "assignValues m i (name # names) values =
     (if length values > i
      then (case mapAssign m name (extractValue (values ! i)) of
              Inl e \<Rightarrow> Inl e
            | Inr m' \<Rightarrow> assignValues m' (Suc i) names values)
      else assignValues m (Suc i) names values)"

definition analyzeSpec :: "Token \<Rightarrow> FileAnalysis \<Rightarrow> Spec \<Rightarrow> error + FileAnalysis" where
  "analyzeSpec tok analysis spec =
     (case spec of
        ValueSpec names values \<Rightarrow>
          if tok = Token_CONST
          then map_sum id (\<lambda>m. analysis\<lparr>Constants := m\<rparr>)
                 (assignValues (Constants analysis) 0 names values)
          else if tok = Token_VAR
          then map_sum id (\<lambda>m. analysis\<lparr>Variables := m\<rparr>)
                 (assignValues (Variables analysis) 0 names values)
          else Inr analysis
      | TypeSpec name ty \<Rightarrow>
          Inr (analysis\<lparr>Types := Types analysis
                  @ [\<lparr>TypeName = name, Kind = extractTypeString ty, Fields = []\<rparr>]\<rparr>)
      | ImportSpecS imp \<Rightarrow> Inr analysis)"

fun analyzeSpecs :: "Token \<Rightarrow> FileAnalysis \<Rightarrow> Spec list \<Rightarrow> error + FileAnalysis" where
  "analyzeSpecs tok analysis [] = Inr analysis"
| "analyzeSpecs tok analysis (spec # specs) =
     (case analyzeSpec tok analysis spec of
        Inl e \<Rightarrow> Inl e
      | Inr analysis' \<Rightarrow> analyzeSpecs tok analysis' specs)"

definition analyzeGenDecl :: "GenDecl \<Rightarrow> FileAnalysis \<Rightarrow> error + FileAnalysis" where
  "analyzeGenDecl decl analysis = analyzeSpecs (Tok decl) analysis (Specs decl)"

text \<open>
  \<open>ParseFile\<close>. The callback of its \<open>ast.Inspect\<close> acts on \<open>FuncDecl\<close> and \<open>GenDecl\<close>
  nodes. A \<open>FuncDecl\<close> is always a top-level declaration; a \<open>GenDecl\<close> also stands below
  declarations, where \<open>inspectDecls\<close> finds it.
\<close>

fun inspectDecls :: "FileAnalysis \<Rightarrow> Node \<Rightarrow> error + FileAnalysis"
  and inspectDeclsList :: "FileAnalysis \<Rightarrow> Node list \<Rightarrow> error + FileAnalysis" where
  "inspectDecls analysis (Node k children) =
     (case (case k of GenDeclK decl \<Rightarrow> analyzeGenDecl decl analysis | _ \<Rightarrow> Inr analysis) of
        Inl e \<Rightarrow> Inl e
      | Inr analysis' \<Rightarrow> inspectDeclsList analysis' children)"
| "inspectDeclsList analysis [] = Inr analysis"
| "inspectDeclsList analysis (n # ns) =
     (case inspectDecls analysis n of
        Inl e \<Rightarrow> Inl e
      | Inr analysis' \<Rightarrow> inspectDeclsList analysis' ns)"

definition inspectTopDecl ::
  "(string \<Rightarrow> string) \<Rightarrow> string \<Rightarrow> FileAnalysis \<Rightarrow> Decl \<Rightarrow> error + FileAnalysis" where
  "inspectTopDecl pkgOf filePath analysis d =
     (case d of
        FuncDeclD x \<Rightarrow>
          (let analysis' = analysis\<lparr>FileFunctions := FileFunctions analysis
                              @ [analyzeFunctionDecl pkgOf x filePath]\<rparr>
           in case DeclBody x of
                None \<Rightarrow> Inr analysis'
              | Some body \<Rightarrow> inspectDeclsList analysis' (List body))
      | GenDeclD x children \<Rightarrow>
          (case analyzeGenDecl x analysis of
             Inl e \<Rightarrow> Inl e
           | Inr analysis' \<Rightarrow> inspectDeclsList analysis' children))"

fun inspectTopDecls ::
  "(string \<Rightarrow> string) \<Rightarrow> string \<Rightarrow> FileAnalysis \<Rightarrow> Decl list \<Rightarrow> error + FileAnalysis" where
  "inspectTopDecls pkgOf filePath analysis [] = Inr analysis"
| "inspectTopDecls pkgOf filePath analysis (d # ds) =
     (case inspectTopDecl pkgOf filePath analysis d of
        Inl e \<Rightarrow> Inl e
      | Inr analysis' \<Rightarrow> inspectTopDecls pkgOf filePath analysis' ds)"

text \<open>
  \<open>goParser\<close> stands for \<open>parser.ParseFile\<close> of go/parser on the file system: the syntax
  tree of the file at a path, or \<open>None\<close> when the file cannot be read or parsed. An error
  return of \<open>ParseFile\<close> is \<open>Inl (ParseError path)\<close>; the other \<open>Inl\<close> values are panics.
\<close>

definition ParseFile ::
  "(string \<Rightarrow> File option) \<Rightarrow> (string \<Rightarrow> string) \<Rightarrow> string \<Rightarrow> error + FileAnalysis" where
  "ParseFile goParser pkgOf filePath =
     (case goParser filePath of
        None \<Rightarrow> Inl (ParseError filePath)
      | Some node \<Rightarrow>
          (let analysis0 = \<lparr>PackageName = PkgName node, Imports = [], FileFunctions = [],
                            Constants = Some Map.empty, Variables = None, Types = []\<rparr>;
               analysis1 = analysis0\<lparr>Imports :=
                             map (\<lambda>imp. \<lparr>ImportName = (case SpecName imp of None \<Rightarrow> [] | Some n \<Rightarrow> n),
                                         ImportPath = Trim (SpecPath imp) [CHR 0x22]\<rparr>)
                               (FileImports node)\<rparr>
           in inspectTopDecls pkgOf filePath analysis1 (Decls node)))"

section \<open>pkg/models/types.go: the records handed to the generator\<close>

record M_ParameterInfo =
  M_ParamName :: string
  M_ParamType :: string

record M_ReturnInfo =
  M_RetName :: string
  M_RetType :: string

record M_ReceiverInfo =
  M_RecvName :: string
  M_RecvType :: string

record M_ComplexityInfo =
  M_HasErrors :: bool
  M_HasPointers :: bool
  M_HasInterfaces :: bool
  M_HasChannels :: bool
  M_HasGoroutines :: bool
  M_Dependencies :: "string list"
  M_CyclomaticComplexity :: int

record M_FunctionInfo =
  M_Name :: string
  M_Package :: string
  M_File :: string
  M_Signature :: string
  M_Parameters :: "M_ParameterInfo list"
  M_Returns :: "M_ReturnInfo list"
  M_IsMethod :: bool
  M_Receiver :: "M_ReceiverInfo option"
  M_Comments :: "string list"
  M_Complexity :: M_ComplexityInfo

section \<open>internal/config: the filtering rules\<close>

record FilterConfig =
  IncludeUnexported :: bool
  MaxComplexity :: int
  MinComplexity :: int
  SkipPatterns :: "string list"
  RequireParams :: bool
  RequireReturns :: bool

text \<open>The \<open>Filtering\<close> part of \<open>DefaultConfig()\<close>.\<close>

definition DefaultFiltering :: FilterConfig where
  "DefaultFiltering =
     \<lparr>IncludeUnexported = False, MaxComplexity = 15, MinComplexity = 1,
      SkipPatterns = [''main'', ''init''], RequireParams = False, RequireReturns = False\<rparr>"

text \<open>
  \<open>(c *Config) ShouldIncludeFunction\<close>. \<open>skips pattern funcName\<close> stands for the two
  standard-library tests of the loop body: \<open>filepath.Match(pattern, funcName)\<close> matched,
  or the lower-cased name contains the lower-cased pattern.
\<close>

definition ShouldIncludeFunction ::
  "(string \<Rightarrow> string \<Rightarrow> bool) \<Rightarrow> FilterConfig \<Rightarrow> string \<Rightarrow> bool \<Rightarrow> int \<Rightarrow> bool" where
  "ShouldIncludeFunction skips filtering funcName isExp complexity =
     (if \<not> isExp \<and> \<not> IncludeUnexported filtering then False
      else if complexity < MinComplexity filtering \<or> complexity > MaxComplexity filtering
      then False
      else if list_ex (\<lambda>pattern. skips pattern funcName) (SkipPatterns filtering) then False
      else True)"

section \<open>internal/analyzer/integration.go: the reconciler\<close>

record ChangedFileAnalysis =
  FilePath :: string
  CF_ModifiedFunctions :: "string list"
  FunctionDetails :: "M_FunctionInfo list"
  CF_FileAnalysis :: FileAnalysis

record AnalysisResult =
  ChangedFiles :: "ChangedFileAnalysis list"
  TotalFunctions :: int
  ModifiedFunctions :: int
  GenerationTargets :: "M_FunctionInfo list"

definition convertToModelFunction :: "FunctionInfo \<Rightarrow> FileAnalysis \<Rightarrow> M_FunctionInfo" where
  "convertToModelFunction fn fileAnalysis =
     \<lparr>M_Name = Name fn, M_Package = Package fn, M_File = File fn,
      M_Signature = Signature fn,
      M_Parameters =
        map (\<lambda>param. \<lparr>M_ParamName = ParamName param, M_ParamType = ParamType param\<rparr>)
          (Parameters fn),
      M_Returns =
        map (\<lambda>ret. \<lparr>M_RetName = RetName ret, M_RetType = RetType ret\<rparr>) (Returns fn),
      M_IsMethod = IsMethod fn,
      M_Receiver =
        (case (IsMethod fn, Receiver fn) of
           (True, Some r) \<Rightarrow> Some \<lparr>M_RecvName = RecvName r, M_RecvType = RecvType r\<rparr>
         | _ \<Rightarrow> None),
      M_Comments = Comments fn,
      M_Complexity =
        \<lparr>M_HasErrors = HasErrors (Complexity fn),
         M_HasPointers = HasPointers (Complexity fn),
         M_HasInterfaces = HasInterfaces (Complexity fn),
         M_HasChannels = HasChannels (Complexity fn),
         M_HasGoroutines = HasGoroutines (Complexity fn),
         M_Dependencies = Dependencies (Complexity fn),
         M_CyclomaticComplexity = CyclomaticComplexity (Complexity fn)\<rparr>\<rparr>"

text \<open>
  \<open>isTestFunction\<close>: \<open>&&\<close> and \<open>||\<close> evaluate from the left and stop as soon as the result
  is known; each slice expression \<open>name[:n]\<close> panics when \<open>n\<close> exceeds the length.
\<close>

definition isTestFunction :: "string \<Rightarrow> error + bool" where
  "isTestFunction name =
     (if \<not> int (length name) > 4 then Inr False
      else (case sliceTo name 4 of
          Inl e \<Rightarrow> Inl e
        | Inr s1 \<Rightarrow>
            if s1 = ''Test'' then Inr True
            else (case sliceTo name 9 of
                Inl e \<Rightarrow> Inl e
              | Inr s2 \<Rightarrow>
                  if s2 = ''Benchmark'' then Inr True
                  else (case sliceTo name 7 of
                      Inl e \<Rightarrow> Inl e
                    | Inr s3 \<Rightarrow>
                        if s3 = ''Example'' then Inr True
                        else (case sliceTo name 4 of
                            Inl e \<Rightarrow> Inl e
                          | Inr s4 \<Rightarrow> Inr (s4 = ''Fuzz''))))))"

definition isExported :: "string \<Rightarrow> error + bool" where
  "isExported name =
     (if name = [] then Inr False
      else (case byteAt name 0 of
              Inl e \<Rightarrow> Inl e
            | Inr c \<Rightarrow> Inr ((of_char (CHR ''A'') :: nat) \<le> of_char c
                             \<and> (of_char c :: nat) \<le> of_char (CHR ''Z''))))"

definition shouldGenerateTest :: "M_FunctionInfo \<Rightarrow> error + bool" where
  "shouldGenerateTest fn =
     (if M_Name fn = ''main'' then Inr False
      else if M_Name fn = ''init'' then Inr False
      else (case isTestFunction (M_Name fn) of
          Inl e \<Rightarrow> Inl e
        | Inr isTest \<Rightarrow>
            if isTest then Inr False
            else (case isExported (M_Name fn) of
                Inl e \<Rightarrow> Inl e
              | Inr exported \<Rightarrow>
                  if \<not> exported then Inr False
                  else if M_CyclomaticComplexity (M_Complexity fn) > 15 then Inr False
                  else if length (M_Parameters fn) = 0 \<and> length (M_Returns fn) = 0
                  then Inr False
                  else Inr True)))"

fun selectTargets :: "M_FunctionInfo list \<Rightarrow> M_FunctionInfo list \<Rightarrow> error + M_FunctionInfo list" where
  "selectTargets targets [] = Inr targets"
| "selectTargets targets (fn # fns) =
     (case shouldGenerateTest fn of
        Inl e \<Rightarrow> Inl e
      | Inr keep \<Rightarrow> selectTargets (if keep then targets @ [fn] else targets) fns)"

definition buildGenerationTargets :: "ChangedFileAnalysis list \<Rightarrow> error + M_FunctionInfo list" where
  "buildGenerationTargets changedFiles =
     selectTargets [] (concat (map FunctionDetails changedFiles))"

text \<open>
  \<open>AnalyzeSpecificFunctions\<close>: the body of the loop over \<open>filePaths\<close>, then the loop and
  the target list. A path that is skipped, a file that fails to parse (the warning is
  printed) and a file with no requested function leave \<open>result\<close> as it is.
\<close>

definition analyzeSpecificFile ::
  "(string \<Rightarrow> File option) \<Rightarrow> (string \<Rightarrow> string) \<Rightarrow> string list \<Rightarrow> AnalysisResult \<Rightarrow> string
     \<Rightarrow> error + AnalysisResult" where
  "analyzeSpecificFile goParser pkgOf functionNames result filePath =
     (if \<not> HasSuffix filePath ''.go'' \<or> HasSuffix filePath ''_test.go'' then Inr result
      else (case ParseFile goParser pkgOf filePath of
          Inl (ParseError msg) \<Rightarrow> Inr result
        | Inl e \<Rightarrow> Inl e
        | Inr fileAnalysis \<Rightarrow>
            (let filteredFunctions =
                   filter (\<lambda>fn. length functionNames = 0 \<or> Name fn \<in> set functionNames)
                     (FileFunctions fileAnalysis);
                 matchedNames = map Name filteredFunctions
             in if length filteredFunctions = 0 then Inr result
                else (let functionDetails =
                            map (\<lambda>fn. convertToModelFunction fn fileAnalysis) filteredFunctions
                      in Inr (result\<lparr>ChangedFiles := ChangedFiles result
                                @ [\<lparr>FilePath = filePath, CF_ModifiedFunctions = matchedNames,
                                    FunctionDetails = functionDetails,
                                    CF_FileAnalysis = fileAnalysis\<rparr>],
                              TotalFunctions := TotalFunctions result
                                + int (length functionDetails),
                              ModifiedFunctions := ModifiedFunctions result
                                + int (length matchedNames)\<rparr>)))))"

fun analyzeSpecificFiles ::
  "(string \<Rightarrow> File option) \<Rightarrow> (string \<Rightarrow> string) \<Rightarrow> string list \<Rightarrow> AnalysisResult
     \<Rightarrow> string list \<Rightarrow> error + AnalysisResult" where
  "analyzeSpecificFiles goParser pkgOf functionNames result [] = Inr result"
| "analyzeSpecificFiles goParser pkgOf functionNames result (filePath # rest) =
     (case analyzeSpecificFile goParser pkgOf functionNames result filePath of
        Inl e \<Rightarrow> Inl e
      | Inr result' \<Rightarrow> analyzeSpecificFiles goParser pkgOf functionNames result' rest)"

definition AnalyzeSpecificFunctions ::
  "(string \<Rightarrow> File option) \<Rightarrow> (string \<Rightarrow> string) \<Rightarrow> string list \<Rightarrow> string list
     \<Rightarrow> error + AnalysisResult" where
  "AnalyzeSpecificFunctions goParser pkgOf filePaths functionNames =
     (case analyzeSpecificFiles goParser pkgOf functionNames
             \<lparr>ChangedFiles = [], TotalFunctions = 0, ModifiedFunctions = 0,
              GenerationTargets = []\<rparr> filePaths of
        Inl e \<Rightarrow> Inl e
      | Inr result \<Rightarrow>
          (case buildGenerationTargets (ChangedFiles result) of
             Inl e \<Rightarrow> Inl e
           | Inr targets \<Rightarrow> Inr (result\<lparr>GenerationTargets := targets\<rparr>)))"

section \<open>Inputs and specification-level definitions used by the properties\<close>

text \<open>A text from its lines, each ended by a newline.\<close>

definition unlines :: "string list \<Rightarrow> string" where
  "unlines ls = concat (map (\<lambda>l. l @ [CHR 0x0A]) ls)"

text \<open>
  Scenario A: the diff of the repository's own test of \<open>parseDiff\<close>, with two added lines
  in the first hunk. The first hunk's header names \<open>ValidateUser\<close>; the second hunk's header
  names \<open>CreateUser\<close> and the hunk adds the function \<open>DeleteUser\<close>.
\<close>

definition scenarioALines :: "string list" where
  "scenarioALines =
    [''diff --git a/user.go b/user.go'',
     ''index 1234567..abcdefg 100644'',
     ''--- a/user.go'',
     ''+++ b/user.go'',
     ''@@ -10,6 +10,8 @@ func ValidateUser(user *User) error {'',
     ''     if user.Email == empty {'',
     ''         return ErrEmailRequired'',
     ''     }'',
     ''+    user.Email = strings.TrimSpace(user.Email)'',
     ''+    user.Name = strings.TrimSpace(user.Name)'',
     ''     return nil'',
     '' }'',
     '' '',
     ''@@ -25,3 +27,7 @@ func CreateUser(name, email string) *User {'',
     ''         Email: email,'',
     ''     }'',
     '' }'',
     ''+'',
     ''+func DeleteUser(id int) error {'',
     ''+    return database.Delete(users, id)'',
     ''+}'']"

definition scenarioA :: string where
  "scenarioA = unlines scenarioALines"

text \<open>
  The selection policy in the words of the specification (section 4.4), for a
  configuration's filtering rules: the five predicates in order, the third one overridden
  by \<open>IncludeUnexported\<close>, the fourth one with the configured ceiling. \<open>isTest\<close> is the
  outcome of the second predicate.
\<close>

definition visibilityExported :: "string \<Rightarrow> bool" where
  "visibilityExported name =
     (case name of
        [] \<Rightarrow> False
      | c # cs \<Rightarrow> (of_char (CHR ''A'') :: nat) \<le> of_char c
                  \<and> (of_char c :: nat) \<le> of_char (CHR ''Z''))"

definition selectionPolicy :: "FilterConfig \<Rightarrow> bool \<Rightarrow> M_FunctionInfo \<Rightarrow> bool" where
  "selectionPolicy filtering isTest fn =
     (if M_Name fn = ''main'' \<or> M_Name fn = ''init'' then False
      else if isTest then False
      else if \<not> visibilityExported (M_Name fn) \<and> \<not> IncludeUnexported filtering then False
      else if M_CyclomaticComplexity (M_Complexity fn) > MaxComplexity filtering then False
      else if M_Parameters fn = [] \<and> M_Returns fn = [] then False
      else True)"

text \<open>The unexported function \<open>func validateUser(user *User) error\<close>, of complexity 3.\<close>

definition validateUserInfo :: M_FunctionInfo where
  "validateUserInfo =
     \<lparr>M_Name = ''validateUser'', M_Package = ''user'', M_File = ''user.go'',
      M_Signature = ''func validateUser(user *User) error'',
      M_Parameters = [\<lparr>M_ParamName = ''user'', M_ParamType = ''*User''\<rparr>],
      M_Returns = [\<lparr>M_RetName = [], M_RetType = ''error''\<rparr>],
      M_IsMethod = False, M_Receiver = None, M_Comments = [],
      M_Complexity =
        \<lparr>M_HasErrors = True, M_HasPointers = True, M_HasInterfaces = False,
         M_HasChannels = False, M_HasGoroutines = False, M_Dependencies = [],
         M_CyclomaticComplexity = 3\<rparr>\<rparr>"

text \<open>
  Scenario D: \<open>func (u *User) GetName() string { return u.Name }\<close> on line 12 of its
  file. The body holds a return statement with the selector expression \<open>u.Name\<close>.
\<close>

definition getNameBody :: BlockStmt where
  "getNameBody =
     \<lparr>BlockPosLine = 12, BlockEndLine = 14,
      List = [Node OtherK [Node (SelectorExprK ''Name'')
                             [Node (IdentK ''u'') [], Node (IdentK ''Name'') []]]]\<rparr>"

definition getNameDecl :: FuncDecl where
  "getNameDecl =
     \<lparr>Doc = None,
      Recv = Some [\<lparr>Names = [''u''], FieldType = StarExpr (Ident ''User'')\<rparr>],
      DeclName = ''GetName'',
      Params = Some [],
      Results = Some [\<lparr>Names = [], FieldType = Ident ''string''\<rparr>],
      DeclBody = Some getNameBody,
      PosLine = 12, EndPosLine = 14\<rparr>"

text \<open>
  A declaration with no body, as Go allows for a function implemented outside Go:
  \<open>func Sqrt(x float64) float64\<close>.
\<close>

definition sqrtDecl :: FuncDecl where
  "sqrtDecl =
     \<lparr>Doc = None, Recv = None, DeclName = ''Sqrt'',
      Params = Some [\<lparr>Names = [''x''], FieldType = Ident ''float64''\<rparr>],
      Results = Some [\<lparr>Names = [], FieldType = Ident ''float64''\<rparr>],
      DeclBody = None, PosLine = 3, EndPosLine = 3\<rparr>"

text \<open>The source file \<open>package limits; var MaxUsers = 100\<close>.\<close>

definition limitsFile :: File where
  "limitsFile =
     \<lparr>PkgName = ''limits'', FileImports = [],
      Decls = [GenDeclD \<lparr>Tok = Token_VAR,
                         Specs = [ValueSpec [''MaxUsers''] [BasicLit ''100'']]\<rparr>
                 [Node (IdentK ''MaxUsers'') [], Node OtherK []]]\<rparr>"

text \<open>
  A method declared without a body, with a pointer receiver, a pointer parameter and an
  error return: \<open>func (s *Store) Flush(buf *Buffer) error\<close>.
\<close>

definition flushDecl :: FuncDecl where
  "flushDecl =
     \<lparr>Doc = None,
      Recv = Some [\<lparr>Names = [''s''], FieldType = StarExpr (Ident ''Store'')\<rparr>],
      DeclName = ''Flush'',
      Params = Some [\<lparr>Names = [''buf''], FieldType = StarExpr (Ident ''Buffer'')\<rparr>],
      Results = Some [\<lparr>Names = [], FieldType = Ident ''error''\<rparr>],
      DeclBody = None, PosLine = 7, EndPosLine = 7\<rparr>"

text \<open>
  The tag invariant of a \<open>FileDiff\<close>: the function tag of every change is empty or in the
  file's list of functions seen.
\<close>

definition tagsSeen :: "FileDiff \<Rightarrow> bool" where
  "tagsSeen fd = (\<forall>c \<in> set (Changes fd). Function c = [] \<or> Function c \<in> set (Functions fd))"

text \<open>The invariant of the scan loop of \<open>parseDiff\<close> that carries it.\<close>

definition scanInvariant :: "scanState \<Rightarrow> bool" where
  "scanInvariant st =
     ((\<forall>fd \<in> set (resultFiles st). tagsSeen fd) \<and>
      (case currentFile st of
         None \<Rightarrow> True
       | Some cf \<Rightarrow>
           tagsSeen cf \<and> (currentFunction st = [] \<or> currentFunction st \<in> set (Functions cf))))"

text \<open>
  What \<open>parseDiff\<close> makes of Scenario A: the one \<open>FileDiff\<close> of the result, every change
  with its tag.
\<close>

definition scenarioAFile :: FileDiff where
  "scenarioAFile =
     \<lparr>OldPath = ''user.go'', NewPath = ''user.go'',
      Changes =
        [\<lparr>Type = Context, Line = ''    if user.Email == empty {'', LineNum = 0,
            Function = ''ValidateUser''\<rparr>,
         \<lparr>Type = Context, Line = ''        return ErrEmailRequired'', LineNum = 1,
            Function = ''ValidateUser''\<rparr>,
         \<lparr>Type = Context, Line = ''    }'', LineNum = 2, Function = ''ValidateUser''\<rparr>,
         \<lparr>Type = Added, Line = ''    user.Email = strings.TrimSpace(user.Email)'',
            LineNum = 3, Function = ''ValidateUser''\<rparr>,
         \<lparr>Type = Added, Line = ''    user.Name = strings.TrimSpace(user.Name)'',
            LineNum = 4, Function = ''ValidateUser''\<rparr>,
         \<lparr>Type = Context, Line = ''    return nil'', LineNum = 5,
            Function = ''ValidateUser''\<rparr>,
         \<lparr>Type = Context, Line = ''}'', LineNum = 6, Function = ''ValidateUser''\<rparr>,
         \<lparr>Type = Context, Line = [], LineNum = 7, Function = ''ValidateUser''\<rparr>,
         \<lparr>Type = Context, Line = ''        Email: email,'', LineNum = 0,
            Function = ''CreateUser''\<rparr>,
         \<lparr>Type = Context, Line = ''    }'', LineNum = 1, Function = ''CreateUser''\<rparr>,
         \<lparr>Type = Context, Line = ''}'', LineNum = 2, Function = ''CreateUser''\<rparr>,
         \<lparr>Type = Added, Line = [], LineNum = 3, Function = ''CreateUser''\<rparr>,
         \<lparr>Type = Added, Line = ''func DeleteUser(id int) error {'', LineNum = 4,
            Function = ''CreateUser''\<rparr>,
         \<lparr>Type = Added, Line = ''    return database.Delete(users, id)'', LineNum = 5,
            Function = ''DeleteUser''\<rparr>,
         \<lparr>Type = Added, Line = ''}'', LineNum = 6, Function = ''DeleteUser''\<rparr>],
      Functions = [''ValidateUser'', ''CreateUser'', ''DeleteUser'']\<rparr>"

text \<open>
  The source file \<open>package math\<close> that holds the declaration of \<open>Sqrt\<close>, and a reader of
  the file system on which every path holds that file.
\<close>

definition sqrtFile :: File where
  "sqrtFile = \<lparr>PkgName = ''math'', FileImports = [], Decls = [FuncDeclD sqrtDecl]\<rparr>"

text \<open>
  An analysis result that holds Go source files only: every changed file's path ends in
  \<open>.go\<close> and not in \<open>_test.go\<close>, and every function of it carries that path.
\<close>

definition goOnly :: "AnalysisResult \<Rightarrow> bool" where
  "goOnly r =
     (\<forall>cf \<in> set (ChangedFiles r).
        isGoSourcePath (FilePath cf) \<and> (\<forall>fn \<in> set (FunctionDetails cf). M_File fn = FilePath cf))"

text \<open>
  Identifiers. The names in a syntax tree that go/parser builds are Go identifiers:
  non-empty sequences of letters, digits and underscores in UTF-8. \<open>goIdentifier\<close> holds of
  every such name, read byte by byte: an ASCII byte is a letter, a digit or the
  underscore; any other rune is a lead byte with its continuation bytes, and is not one
  of the white-space code points.
\<close>

definition identByte :: "char \<Rightarrow> bool" where
  "identByte c =
     ((48 \<le> (of_char c :: nat) \<and> (of_char c :: nat) \<le> 57)
      \<or> (65 \<le> (of_char c :: nat) \<and> (of_char c :: nat) \<le> 90)
      \<or> (of_char c :: nat) = 95
      \<or> (97 \<le> (of_char c :: nat) \<and> (of_char c :: nat) \<le> 122))"

definition utf8Cont :: "char \<Rightarrow> bool" where
  "utf8Cont c = (128 \<le> (of_char c :: nat) \<and> (of_char c :: nat) \<le> 191)"

fun identRunes :: "string \<Rightarrow> bool" where
  "identRunes [] = True"
| "identRunes (c # s) =
     (if (of_char c :: nat) < 128 then identByte c \<and> identRunes s
      else if 194 \<le> (of_char c :: nat) \<and> (of_char c :: nat) \<le> 223 then
        (case s of
           c1 # s' \<Rightarrow> utf8Cont c1 \<and> [c, c1] \<notin> set unicodeSpaces \<and> identRunes s'
         | _ \<Rightarrow> False)
      else if 224 \<le> (of_char c :: nat) \<and> (of_char c :: nat) \<le> 239 then
        (case s of
           c1 # c2 # s' \<Rightarrow>
             utf8Cont c1 \<and> utf8Cont c2 \<and> [c, c1, c2] \<notin> set unicodeSpaces \<and> identRunes s'
         | _ \<Rightarrow> False)
      else if 240 \<le> (of_char c :: nat) \<and> (of_char c :: nat) \<le> 244 then
        (case s of
           c1 # c2 # c3 # s' \<Rightarrow> utf8Cont c1 \<and> utf8Cont c2 \<and> utf8Cont c3 \<and> identRunes s'
         | _ \<Rightarrow> False)
      else False)"

definition goIdentifier :: "string \<Rightarrow> bool" where
  "goIdentifier name = (name \<noteq> [] \<and> identRunes name)"

text \<open>A declaration whose names, in the receiver, parameters and results, are identifiers.\<close>

fun wfExpr :: "Expr \<Rightarrow> bool" where
  "wfExpr (Ident name) = goIdentifier name"
| "wfExpr (StarExpr x) = wfExpr x"
| "wfExpr (ArrayType len elt) = wfExpr elt"
| "wfExpr (MapType k v) = (wfExpr k \<and> wfExpr v)"
| "wfExpr (ChanType dir v) = wfExpr v"
| "wfExpr (SelectorExpr x sel) = (wfExpr x \<and> goIdentifier sel)"
| "wfExpr e = True"

definition wfField :: "Field \<Rightarrow> bool" where
  "wfField f = (list_all goIdentifier (Names f) \<and> wfExpr (FieldType f))"

definition wfFieldList :: "Field list option \<Rightarrow> bool" where
  "wfFieldList fl = (case fl of None \<Rightarrow> True | Some fs \<Rightarrow> list_all wfField fs)"

definition wfSignature :: "FuncDecl \<Rightarrow> bool" where
  "wfSignature funcDecl =
     (goIdentifier (DeclName funcDecl) \<and> wfFieldList (Recv funcDecl)
      \<and> wfFieldList (Params funcDecl) \<and> wfFieldList (Results funcDecl))"

text \<open>The bytes of identifiers: ASCII letters, digits, the underscore, and bytes of UTF-8.\<close>

definition identChar :: "char \<Rightarrow> bool" where
  "identChar c = (identByte c \<or> 128 \<le> (of_char c :: nat))"

text \<open>A close parenthesis directly followed by a space, somewhere in a string.\<close>

fun hasCloseSpace :: "string \<Rightarrow> bool" where
  "hasCloseSpace (a # b # s) = ((a = CHR '')'' \<and> b = CHR '' '') \<or> hasCloseSpace (b # s))"
| "hasCloseSpace [] = False"
| "hasCloseSpace [a] = False"

text \<open>What the loops of \<open>buildSignatureString\<close> append for a list of entries.\<close>

fun joinEntries :: "(string \<times> string) list \<Rightarrow> string" where
  "joinEntries [] = []"
| "joinEntries ((name, ty) # rest) =
     (if name \<noteq> [] then name @ '' '' else []) @ ty @ (if rest \<noteq> [] then '', '' else [])
       @ joinEntries rest"

text \<open>
  The parts of the string that \<open>buildSignatureString\<close> writes around the name: the
  receiver clause and the text after the parameter list.
\<close>

definition receiverText :: "FunctionInfo \<Rightarrow> string" where
  "receiverText funcInfo =
     (case (IsMethod funcInfo, Receiver funcInfo) of
        (True, Some r) \<Rightarrow>
          ''('' @ (if RecvName r \<noteq> [] then RecvName r @ '' '' else []) @ RecvType r @ '') ''
      | _ \<Rightarrow> [])"

definition returnsText :: "FunctionInfo \<Rightarrow> string" where
  "returnsText funcInfo =
     (if length (Returns funcInfo) > 1
      then '' ('' @ joinEntries (map (\<lambda>r. (RetName r, RetType r)) (Returns funcInfo)) @ '')''
      else if length (Returns funcInfo) > 0
      then '' '' @ joinEntries (map (\<lambda>r. (RetName r, RetType r)) (Returns funcInfo))
      else [])"

text \<open>
  Modelled from the spec: the re-extraction of the parameter count and the return count
  from a rendered signature string, which the round-trip property of the specification
  (section 8) names and for which the repository has no function. The name is located as
  \<open>extractFunctionName\<close> locates it; the parameter list is the text between the
  parenthesis after the name and the parenthesis that closes it; the returns are what
  follows, one entry or a parenthesised list. A list holds as many entries as it has
  commas outside nested parentheses, plus one, and no entry when it is empty.
\<close>

fun splitAtClose :: "nat \<Rightarrow> string \<Rightarrow> string \<Rightarrow> (string \<times> string) option" where
  "splitAtClose depth inside [] = None"
| "splitAtClose depth inside (c # s) =
     (if c = CHR ''('' then splitAtClose (Suc depth) (inside @ [c]) s
      else if c = CHR '')'' then
        (case depth of
           0 \<Rightarrow> Some (inside, s)
         | Suc d \<Rightarrow> splitAtClose d (inside @ [c]) s)
      else splitAtClose depth (inside @ [c]) s)"

fun topCommas :: "nat \<Rightarrow> string \<Rightarrow> nat" where
  "topCommas depth [] = 0"
| "topCommas depth (c # s) =
     (if c = CHR ''('' then topCommas (Suc depth) s
      else if c = CHR '')'' then topCommas (depth - 1) s
      else if c = CHR '','' \<and> depth = 0 then Suc (topCommas depth s)
      else topCommas depth s)"

definition entryCount :: "string \<Rightarrow> nat" where
  "entryCount list = (if list = [] then 0 else Suc (topCommas 0 list))"

definition returnCount :: "string \<Rightarrow> nat" where
  "returnCount rest =
     (let r = (if HasPrefix rest '' '' then drop 1 rest else rest)
      in if r = [] then 0
         else if HasPrefix r ''('' then
           (case splitAtClose 0 [] (drop 1 r) of
              None \<Rightarrow> 1
            | Some (list, after) \<Rightarrow> entryCount list)
         else 1)"

definition signatureCounts :: "string \<Rightarrow> (nat \<times> nat) option" where
  "signatureCounts sig =
     (let line = TrimPrefix sig ''func '';
          closeParen = Index line '') '';
          line' = (if HasPrefix line ''('' \<and> closeParen \<noteq> - 1
                   then drop (nat (closeParen + 2)) line else line);
          parenIndex = Index line' ''(''
      in if parenIndex = - 1 then None
         else (case splitAtClose 0 [] (drop (nat (parenIndex + 1)) line') of
                 None \<Rightarrow> None
               | Some (params, rest) \<Rightarrow> Some (entryCount params, returnCount rest)))"

text \<open>The entries of a rendered list: names that are empty or identifiers, rendered types.\<close>

definition entriesOK :: "(string \<times> string) list \<Rightarrow> bool" where
  "entriesOK es =
     (\<forall>(name, ty) \<in> set es.
        (name = [] \<or> goIdentifier name) \<and> (\<exists>e. wfExpr e \<and> ty = extractTypeString e))"

text \<open>
  Methods with a named receiver, a grouped parameter list and two returns, one of a
  function type: \<open>func (s *Store) Load(key, ns string, dec func(...)) (val []byte, err error)\<close>.
\<close>

definition loadDecl :: FuncDecl where
  "loadDecl =
     \<lparr>Doc = None,
      Recv = Some [\<lparr>Names = [''s''], FieldType = StarExpr (Ident ''Store'')\<rparr>],
      DeclName = ''Load'',
      Params = Some [\<lparr>Names = [''key'', ''ns''], FieldType = Ident ''string''\<rparr>,
                     \<lparr>Names = [''dec''], FieldType = FuncType\<rparr>],
      Results = Some [\<lparr>Names = [''val''], FieldType = ArrayType None (Ident ''byte'')\<rparr>,
                      \<lparr>Names = [''err''], FieldType = Ident ''error''\<rparr>],
      DeclBody = None, PosLine = 20, EndPosLine = 20\<rparr>"

section \<open>Properties\<close>

subsection \<open>The diff parser never faults\<close>

lemma Index_range:
  "Index s sub = - 1 \<or> (0 \<le> Index s sub \<and> Index s sub + int (length sub) \<le> int (length s))"
proof (induction s)
  case Nil
  then show ?case by simp
next
  case (Cons c s)
  then show ?case by (auto simp: Let_def HasPrefix_def)
qed

lemma sliceFrom_HasPrefix1:
  "HasPrefix s [c] \<Longrightarrow> sliceFrom s 1 = Inr (drop 1 s)"
  by (auto simp: HasPrefix_def sliceFrom_def)

lemma extractFunctionName_total: "\<exists>name. extractFunctionName line = Inr name"
proof -
  have a: "\<exists>l. (if HasPrefix s ''+'' \<or> HasPrefix s ''-'' \<or> HasPrefix s '' ''
            then map_sum id TrimSpace (sliceFrom s 1) else Inr s) = Inr l" for s
    by (auto simp: sliceFrom_HasPrefix1)
  have b: "\<exists>l. (if HasPrefix s ''(''
                   then (let closeParen = Index s '') '' in
                         if closeParen \<noteq> - 1
                         then map_sum id TrimSpace (sliceFrom s (closeParen + 2))
                         else Inr s)
                   else Inr s) = Inr l" for s
    using Index_range[of s "'') ''"] by (auto simp: Let_def sliceFrom_def)
  have c: "Index s ''('' \<noteq> - 1 \<Longrightarrow> \<exists>l. sliceTo s (Index s ''('') = Inr l" for s
    using Index_range[of s "''(''"] by (auto simp: sliceTo_def)
  obtain l2 where l2: "(if HasPrefix (TrimSpace line) ''+'' \<or> HasPrefix (TrimSpace line) ''-'' \<or> HasPrefix (TrimSpace line) '' ''
            then map_sum id TrimSpace (sliceFrom (TrimSpace line) 1) else Inr (TrimSpace line)) = Inr l2"
    using a by blast
  show ?thesis
  proof (cases "HasPrefix l2 ''func ''")
    case False
    then show ?thesis using l2 by (simp add: extractFunctionName_def Let_def)
  next
    case True
    obtain l4 where l4: "(if HasPrefix (TrimSpace (TrimPrefix l2 ''func '')) ''(''
                   then (let closeParen = Index (TrimSpace (TrimPrefix l2 ''func '')) '') '' in
                         if closeParen \<noteq> - 1
                         then map_sum id TrimSpace (sliceFrom (TrimSpace (TrimPrefix l2 ''func '')) (closeParen + 2))
                         else Inr (TrimSpace (TrimPrefix l2 ''func '')))
                   else Inr (TrimSpace (TrimPrefix l2 ''func ''))) = Inr l4"
      using b by blast
    show ?thesis
    proof (cases "Index l4 ''('' = - 1")
      case True
      then show ?thesis using l2 l4 \<open>HasPrefix l2 ''func ''\<close>
        by (simp add: extractFunctionName_def Let_def)
    next
      case False
      then obtain nm where "sliceTo l4 (Index l4 ''('') = Inr nm" using c by blast
      then show ?thesis using l2 l4 \<open>HasPrefix l2 ''func ''\<close> False
        by (simp add: extractFunctionName_def Let_def)
    qed
  qed
qed

lemma parseDiffLine_total: "\<exists>r. parseDiffLine line fn = Inr r"
  by (cases line) (auto simp: parseDiffLine_def byteAt_def sliceFrom_def)

lemma parseDiffLine_Some:
  "parseDiffLine line fn = Inr (Some ch) \<Longrightarrow> Function ch = fn"
  by (cases line) (auto simp: parseDiffLine_def byteAt_def sliceFrom_def split: if_splits)

lemma contentLine_total: "\<exists>st'. contentLine st cf line = Inr st'"
proof -
  obtain r where r: "parseDiffLine line (currentFunction st) = Inr r"
    using parseDiffLine_total by blast
  show ?thesis
  proof (cases r)
    case None
    then show ?thesis using r by (simp add: contentLine_def)
  next
    case (Some ch)
    obtain n where "extractFunctionName (Line (ch\<lparr>LineNum := lineNum st\<rparr>)) = Inr n"
      using extractFunctionName_total by blast
    then show ?thesis using r Some by (simp add: contentLine_def Let_def)
  qed
qed

lemma scanStep_total: "\<exists>st'. scanStep st line = Inr st'"
proof (cases "fileHeaderRegex line")
  case (Some a)
  then show ?thesis by (cases a) (simp add: scanStep_def)
next
  case None
  note fh = this
  show ?thesis
  proof (cases "hunkHeaderRegex line")
    case (Some ctx)
    obtain n where "extractFunctionName ctx = Inr n" using extractFunctionName_total by blast
    then show ?thesis using fh Some by (simp add: scanStep_def)
  next
    case None
    then show ?thesis using fh contentLine_total
      by (simp add: scanStep_def split: option.splits)
  qed
qed

lemma scanLoop_total: "\<exists>st'. scanLoop st ls = Inr st'"
proof (induction ls arbitrary: st)
  case Nil
  then show ?case by simp
next
  case (Cons l ls)
  obtain st1 where "scanStep st l = Inr st1" using scanStep_total by blast
  then show ?case using Cons[of st1] by simp
qed

text \<open>
  C8. For every input text, malformed or not, \<open>parseDiff\<close> and the exported \<open>ParseDiff\<close>
  return a result and no error: no slice or index expression of the parser is ever out of
  range. A line that matches neither the file header nor the hunk header, has no metadata
  prefix and does not start with \<open>+\<close>, \<open>-\<close> or a space is skipped: the step leaves the
  files, the current file and the current function as they are, and only counts the line
  when a file is open.
\<close>

theorem parseDiff_never_fails:
  "(\<exists>result. parseDiff diffText = Inr result)
   \<and> (\<exists>result. ParseDiff diffText = Inr result)
   \<and> (fileHeaderRegex line = None \<and> hunkHeaderRegex line = None \<and> \<not> isMetadata line
        \<and> (line = [] \<or> hd line \<notin> {CHR ''+'', CHR ''-'', CHR '' ''})
      \<longrightarrow> scanStep st line =
            Inr (case currentFile st of
                   None \<Rightarrow> st
                 | Some cf \<Rightarrow> st\<lparr>lineNum := lineNum st + 1\<rparr>))"
proof (intro conjI impI)
  show p: "\<exists>result. parseDiff diffText = Inr result"
    using scanLoop_total[of initialState "scanLines diffText"]
    by (auto simp: parseDiff_def)
  then show "\<exists>result. ParseDiff diffText = Inr result"
    by (simp add: ParseDiff_def)
next
  assume a: "fileHeaderRegex line = None \<and> hunkHeaderRegex line = None \<and> \<not> isMetadata line
        \<and> (line = [] \<or> hd line \<notin> {CHR ''+'', CHR ''-'', CHR '' ''})"
  then have "parseDiffLine line (currentFunction st) = Inr None"
    by (cases line) (auto simp: parseDiffLine_def byteAt_def)
  then show "scanStep st line =
            Inr (case currentFile st of
                   None \<Rightarrow> st
                 | Some cf \<Rightarrow> st\<lparr>lineNum := lineNum st + 1\<rparr>)"
    using a by (simp add: scanStep_def contentLine_def split: option.splits)
qed

theorem parseDiff_never_fails_witness:
  "(\<exists>result. parseDiff ''@@ -x,y +z @@ func broken('' = Inr result)
   \<and> (\<exists>result. ParseDiff ''@@ -x,y +z @@ func broken('' = Inr result)
   \<and> fileHeaderRegex ''Binary files differ'' = None
   \<and> hunkHeaderRegex ''Binary files differ'' = None
   \<and> \<not> isMetadata ''Binary files differ''
   \<and> hd ''Binary files differ'' \<notin> {CHR ''+'', CHR ''-'', CHR '' ''}
   \<and> scanStep \<lparr>resultFiles = [], currentFile = Some scenarioAFile,
                 currentFunction = ''DeleteUser'', lineNum = 7\<rparr> ''Binary files differ''
       = Inr \<lparr>resultFiles = [], currentFile = Some scenarioAFile,
              currentFunction = ''DeleteUser'', lineNum = 8\<rparr>"
  using parseDiff_never_fails[of "''@@ -x,y +z @@ func broken(''" "''Binary files differ''"
      "\<lparr>resultFiles = [], currentFile = Some scenarioAFile,
        currentFunction = ''DeleteUser'', lineNum = 7\<rparr>"]
  by (simp add: fileHeaderRegex_def hunkHeaderRegex_def isMetadata_def HasPrefix_def)

subsection \<open>Tags and the seen-list\<close>

lemma tagsSeen_add: "tagsSeen fd \<Longrightarrow> tagsSeen (addFunctionIfModified fd n)"
  by (auto simp: tagsSeen_def addFunctionIfModified_def)

lemma Functions_add: "n \<noteq> [] \<Longrightarrow> n \<in> set (Functions (addFunctionIfModified fd n))"
  by (auto simp: addFunctionIfModified_def)

lemma tagsSeen_append:
  "tagsSeen cf \<Longrightarrow> Function ch = [] \<or> Function ch \<in> set (Functions cf)
     \<Longrightarrow> tagsSeen (cf\<lparr>Changes := Changes cf @ [ch]\<rparr>)"
  by (auto simp: tagsSeen_def)

lemma contentLine_invariant:
  assumes "scanInvariant st" "currentFile st = Some cf" "contentLine st cf line = Inr st'"
  shows "scanInvariant st'"
proof -
  from assms(1,2) have cf: "tagsSeen cf"
    and cur: "currentFunction st = [] \<or> currentFunction st \<in> set (Functions cf)"
    and res: "\<forall>fd \<in> set (resultFiles st). tagsSeen fd"
    by (simp_all add: scanInvariant_def)
  obtain r where r: "parseDiffLine line (currentFunction st) = Inr r"
    using parseDiffLine_total by blast
  show ?thesis
  proof (cases r)
    case None
    then show ?thesis using r assms by (auto simp: contentLine_def scanInvariant_def)
  next
    case (Some ch)
    have tag: "Function ch = currentFunction st" using r Some parseDiffLine_Some by blast
    let ?ch = "ch\<lparr>LineNum := lineNum st\<rparr>"
    let ?cf1 = "cf\<lparr>Changes := Changes cf @ [?ch]\<rparr>"
    have cf1: "tagsSeen ?cf1" using tagsSeen_append[OF cf, of ?ch] cur tag by simp
    have F1: "Functions ?cf1 = Functions cf" by simp
    obtain n where n: "extractFunctionName (Line ?ch) = Inr n"
      using extractFunctionName_total by blast
    from assms(3) r Some n
    have "st' = st\<lparr>currentFile := Some (addFunctionIfModified ?cf1 n), currentFunction := n, lineNum := lineNum st + 1\<rparr> \<and> n \<noteq> []
        \<or> st' = st\<lparr>currentFile := Some ?cf1, lineNum := lineNum st + 1\<rparr>"
      by (auto simp: contentLine_def Let_def split: if_splits)
    then show ?thesis
    proof
      assume a: "st' = st\<lparr>currentFile := Some (addFunctionIfModified ?cf1 n), currentFunction := n, lineNum := lineNum st + 1\<rparr> \<and> n \<noteq> []"
      then show ?thesis using tagsSeen_add[OF cf1, of n] Functions_add[of n ?cf1] res
        by (simp add: scanInvariant_def)
    next
      assume "st' = st\<lparr>currentFile := Some ?cf1, lineNum := lineNum st + 1\<rparr>"
      then show ?thesis using cf1 cur res by (simp add: scanInvariant_def)
    qed
  qed
qed

lemma scanStep_invariant:
  assumes "scanInvariant st" "scanStep st line = Inr st'"
  shows "scanInvariant st'"
proof (cases "fileHeaderRegex line")
  case (Some a)
  obtain old new where a: "a = (old, new)" by (cases a)
  have new: "tagsSeen \<lparr>OldPath = old, NewPath = new, Changes = [], Functions = []\<rparr>"
    by (simp add: tagsSeen_def)
  have "st' = st\<lparr>resultFiles := (case currentFile st of None \<Rightarrow> resultFiles st
                                       | Some cf \<Rightarrow> resultFiles st @ [cf]),
                     currentFile := Some \<lparr>OldPath = old, NewPath = new, Changes = [], Functions = []\<rparr>,
                     currentFunction := [], lineNum := 0\<rparr>"
    using assms(2) Some a by (simp add: scanStep_def)
  then show ?thesis using assms(1) new
    by (auto simp: scanInvariant_def split: option.splits)
next
  case None
  note fh = this
  show ?thesis
  proof (cases "hunkHeaderRegex line")
    case (Some ctx)
    obtain n where n: "extractFunctionName ctx = Inr n" using extractFunctionName_total by blast
    show ?thesis
    proof (cases "ctx \<noteq> [] \<and> n \<noteq> []")
      case True
      then have "st' = st\<lparr>currentFile := map_option (\<lambda>cf. addFunctionIfModified cf n) (currentFile st),
                           currentFunction := n, lineNum := 0\<rparr>"
        using assms(2) fh Some n by (simp add: scanStep_def)
      then show ?thesis using assms(1) True tagsSeen_add Functions_add
        by (auto simp: scanInvariant_def split: option.splits)
    next
      case False
      then have "st' = st\<lparr>lineNum := 0\<rparr>"
        using assms(2) fh Some n by (auto simp: scanStep_def split: if_splits)
      then show ?thesis using assms(1) by (auto simp: scanInvariant_def split: option.splits)
    qed
  next
    case None
    show ?thesis
    proof (cases "isMetadata line \<or> currentFile st = None")
      case True
      then have "st' = st" using assms(2) fh None
        by (auto simp: scanStep_def split: if_splits option.splits)
      then show ?thesis using assms(1) by simp
    next
      case False
      then obtain cf where cf: "currentFile st = Some cf" by auto
      then have "contentLine st cf line = Inr st'"
        using assms(2) fh None False by (simp add: scanStep_def)
      then show ?thesis using contentLine_invariant[OF assms(1) cf] by simp
    qed
  qed
qed

lemma scanLoop_invariant:
  "scanInvariant st \<Longrightarrow> scanLoop st ls = Inr st' \<Longrightarrow> scanInvariant st'"
proof (induction ls arbitrary: st)
  case Nil
  then show ?case by simp
next
  case (Cons l ls)
  obtain st1 where st1: "scanStep st l = Inr st1" using scanStep_total by blast
  then have "scanInvariant st1" using scanStep_invariant Cons.prems(1) by blast
  moreover have "scanLoop st1 ls = Inr st'" using Cons.prems(2) st1 by simp
  ultimately show ?case using Cons.IH by blast
qed

text \<open>The run of \<open>parseDiff\<close> on Scenario A.\<close>

lemma scanLines_scenarioA: "scanLines scenarioA = scenarioALines"
  by (simp add: scenarioA_def unlines_def scenarioALines_def scanLines_def
      MaxScanTokenSize_def dropCR_def)

lemma scanLoop_scenarioA:
  "scanLoop initialState scenarioALines =
     Inr \<lparr>resultFiles = [], currentFile = Some scenarioAFile,
          currentFunction = ''DeleteUser'', lineNum = 7\<rparr>"
  by code_simp

lemma parseDiff_scenarioA: "parseDiff scenarioA = Inr \<lparr>Files = [scenarioAFile]\<rparr>"
  by (simp add: parseDiff_def scanLines_scenarioA scanLoop_scenarioA)

text \<open>
  C6. For every diff text, in every \<open>FileDiff\<close> that \<open>parseDiff\<close> produces, the function
  tag of every change is empty or one of the names in that file's seen-list \<open>Functions\<close>.
\<close>

theorem tags_in_seen_list:
  "parseDiff diffText = Inr result \<Longrightarrow> fd \<in> set (Files result) \<Longrightarrow> change \<in> set (Changes fd)
     \<Longrightarrow> Function change = [] \<or> Function change \<in> set (Functions fd)"
proof -
  assume a: "parseDiff diffText = Inr result" and b: "fd \<in> set (Files result)"
    and c: "change \<in> set (Changes fd)"
  obtain st where st: "scanLoop initialState (scanLines diffText) = Inr st"
    using scanLoop_total by blast
  have "scanInvariant initialState" by (simp add: scanInvariant_def initialState_def)
  then have inv: "scanInvariant st" using scanLoop_invariant st by blast
  have "Files result = (case currentFile st of None \<Rightarrow> resultFiles st | Some cf \<Rightarrow> resultFiles st @ [cf])"
    using a st by (auto simp: parseDiff_def)
  then have "tagsSeen fd" using inv b
    by (auto simp: scanInvariant_def split: option.splits)
  then show ?thesis using c by (auto simp: tagsSeen_def)
qed

theorem tags_in_seen_list_witness:
  "parseDiff scenarioA = Inr \<lparr>Files = [scenarioAFile]\<rparr>
   \<and> scenarioAFile \<in> set (Files \<lparr>Files = [scenarioAFile]\<rparr>)
   \<and> \<lparr>Type = Added, Line = ''func DeleteUser(id int) error {'', LineNum = 4,
        Function = ''CreateUser''\<rparr> \<in> set (Changes scenarioAFile)
   \<and> (Function \<lparr>Type = Added, Line = ''func DeleteUser(id int) error {'', LineNum = 4,
                  Function = ''CreateUser''\<rparr> = []
      \<or> Function \<lparr>Type = Added, Line = ''func DeleteUser(id int) error {'', LineNum = 4,
                    Function = ''CreateUser''\<rparr> \<in> set (Functions scenarioAFile))"
  using tags_in_seen_list[OF parseDiff_scenarioA, of scenarioAFile
      "\<lparr>Type = Added, Line = ''func DeleteUser(id int) error {'', LineNum = 4,
        Function = ''CreateUser''\<rparr>"]
  by (simp add: parseDiff_scenarioA scenarioAFile_def)

subsection \<open>Scenario A\<close>

text \<open>
  C1. On the diff of Scenario A the code does not return the set the claim names.
  \<open>parseDiff\<close> produces one \<open>FileDiff\<close> whose seen-list is \<open>ValidateUser\<close>, \<open>CreateUser\<close>,
  \<open>DeleteUser\<close>; the added blank line and the added declaration line of \<open>DeleteUser\<close> are
  tagged with the function current when they are read, \<open>CreateUser\<close>, so
  \<open>GetModifiedFunctions\<close> returns all three names, \<open>CreateUser\<close> included.
\<close>

theorem scenarioA_modified_functions:
  "parseDiff scenarioA = Inr \<lparr>Files = [scenarioAFile]\<rparr>
   \<and> Functions scenarioAFile = [''ValidateUser'', ''CreateUser'', ''DeleteUser'']
   \<and> GetModifiedFunctions scenarioAFile = {''ValidateUser'', ''CreateUser'', ''DeleteUser''}
   \<and> GetModifiedFunctions scenarioAFile \<noteq> {''ValidateUser'', ''DeleteUser''}"
proof -
  have m: "GetModifiedFunctions scenarioAFile = {''ValidateUser'', ''CreateUser'', ''DeleteUser''}"
    by (simp add: GetModifiedFunctions_def scenarioAFile_def noteChange_def insert_commute)
  have "''CreateUser'' \<in> GetModifiedFunctions scenarioAFile" by (simp add: m)
  moreover have "''CreateUser'' \<notin> {''ValidateUser'', ''DeleteUser''}" by simp
  ultimately have "GetModifiedFunctions scenarioAFile \<noteq> {''ValidateUser'', ''DeleteUser''}"
    by metis
  then show ?thesis using m by (simp add: parseDiff_scenarioA scenarioAFile_def)
qed

subsection \<open>The syntax analyzer\<close>

lemma foldl_errors_flag:
  "foldl (\<lambda>c ret. if P ret then c\<lparr>HasErrors := True\<rparr> else c) c0 xs =
     (if list_ex P xs then c0\<lparr>HasErrors := True\<rparr> else c0)"
  by (induction xs arbitrary: c0) auto

lemma foldl_pointers_flag:
  "foldl (\<lambda>c p. if P p then c\<lparr>HasPointers := True\<rparr> else c) c0 xs =
     (if list_ex P xs then c0\<lparr>HasPointers := True\<rparr> else c0)"
  by (induction xs arbitrary: c0) auto

lemma Complexity_signatureBackfill:
  "Complexity (signatureBackfill f) =
     (Complexity f)
       \<lparr>HasErrors := HasErrors (Complexity f) \<or> list_ex (\<lambda>r. RetType r = ''error'') (Returns f),
        HasPointers := HasPointers (Complexity f)
           \<or> list_ex (\<lambda>p. HasPrefix (ParamType p) ''*'') (Parameters f)
           \<or> (IsMethod f \<and> (case Receiver f of None \<Rightarrow> False
                                | Some r \<Rightarrow> HasPrefix (RecvType r) ''*''))\<rparr>"
  by (auto simp: signatureBackfill_def foldl_errors_flag foldl_pointers_flag Let_def
      split: option.splits bool.splits)

lemma signatureBackfill_fields [simp]:
  "Name (signatureBackfill f) = Name f"
  "Returns (signatureBackfill f) = Returns f"
  "Parameters (signatureBackfill f) = Parameters f"
  "IsMethod (signatureBackfill f) = IsMethod f"
  "Receiver (signatureBackfill f) = Receiver f"
  "Signature (signatureBackfill f) = Signature f"
  by (simp_all add: signatureBackfill_def Let_def)

lemma analyzeFunctionDecl_fields:
  "Name (analyzeFunctionDecl pkgOf d path) = DeclName d"
  "Returns (analyzeFunctionDecl pkgOf d path) =
     (case Results d of None \<Rightarrow> [] | Some fs \<Rightarrow> concat (map fieldReturns fs))"
  "Parameters (analyzeFunctionDecl pkgOf d path) =
     (case Params d of None \<Rightarrow> [] | Some fs \<Rightarrow> concat (map fieldParameters fs))"
  "Receiver (analyzeFunctionDecl pkgOf d path) = declReceiver d"
  "IsMethod (analyzeFunctionDecl pkgOf d path) = (declReceiver d \<noteq> None)"
  by (simp_all add: analyzeFunctionDecl_def Let_def split: option.splits)

lemma analyzeFunctionDecl_flags:
  "HasErrors (Complexity (analyzeFunctionDecl pkgOf d path)) =
     ((case DeclBody d of None \<Rightarrow> False | Some body \<Rightarrow> HasErrors (analyzeComplexity body))
      \<or> list_ex (\<lambda>r. RetType r = ''error'') (Returns (analyzeFunctionDecl pkgOf d path)))"
  "HasPointers (Complexity (analyzeFunctionDecl pkgOf d path)) =
     ((case DeclBody d of None \<Rightarrow> False | Some body \<Rightarrow> HasPointers (analyzeComplexity body))
      \<or> list_ex (\<lambda>p. HasPrefix (ParamType p) ''*'') (Parameters (analyzeFunctionDecl pkgOf d path))
      \<or> (case Receiver (analyzeFunctionDecl pkgOf d path) of None \<Rightarrow> False
          | Some r \<Rightarrow> HasPrefix (RecvType r) ''*''))"
  by (auto simp: analyzeFunctionDecl_def Let_def Complexity_signatureBackfill zeroComplexity_def
      split: option.splits)

lemma complexityAt_count:
  "ControlFlowCount c \<le> ControlFlowCount (complexityAt c k cs)"
  by (auto simp: complexityAt_def Let_def split: NodeKind.splits)

lemma inspectComplexity_count:
  "ControlFlowCount c \<le> ControlFlowCount (inspectComplexity c n)"
  "ControlFlowCount c \<le> ControlFlowCount (inspectComplexityList c ns)"
proof (induction c n and c ns rule: inspectComplexity_inspectComplexityList.induct)
  case (1 complexity k children)
  then show ?case using complexityAt_count[of complexity k children] by simp
next
  case (2 complexity)
  then show ?case by simp
next
  case (3 complexity n ns)
  then show ?case by simp
qed

lemma analyzeComplexity_cyclomatic:
  "CyclomaticComplexity (analyzeComplexity body) = ControlFlowCount (analyzeComplexity body) + 1"
  "0 \<le> ControlFlowCount (analyzeComplexity body)"
  using inspectComplexity_count(1)[of zeroComplexity "Node OtherK (List body)"]
  by (simp_all add: analyzeComplexity_def Let_def zeroComplexity_def)

text \<open>
  C3, as the claim states it, fails for a declaration with no body: the complexity
  analysis is skipped and \<open>CyclomaticComplexity\<close> keeps the zero value. Here the
  declaration is \<open>func Sqrt(x float64) float64\<close>.
\<close>

theorem cyclomatic_no_body_counterexample:
  "\<not> 1 \<le> CyclomaticComplexity
            (Complexity (analyzeFunctionDecl (\<lambda>path. ''math'') sqrtDecl ''math/sqrt.go''))"
  by (simp add: analyzeFunctionDecl_def Let_def Complexity_signatureBackfill zeroComplexity_def
      sqrtDecl_def)

text \<open>
  C3, amended. For every \<open>FunctionInfo\<close> that \<open>analyzeFunctionDecl\<close> produces from a
  declaration with a body, \<open>CyclomaticComplexity\<close> is \<open>ControlFlowCount + 1\<close> and at least
  1; from a declaration with no body it is 0.
\<close>

theorem cyclomatic_by_body:
  "(DeclBody funcDecl \<noteq> None \<longrightarrow>
      CyclomaticComplexity (Complexity (analyzeFunctionDecl pkgOf funcDecl filePath))
        = ControlFlowCount (Complexity (analyzeFunctionDecl pkgOf funcDecl filePath)) + 1
      \<and> 1 \<le> CyclomaticComplexity (Complexity (analyzeFunctionDecl pkgOf funcDecl filePath)))
   \<and> (DeclBody funcDecl = None \<longrightarrow>
      CyclomaticComplexity (Complexity (analyzeFunctionDecl pkgOf funcDecl filePath)) = 0)"
  using analyzeComplexity_cyclomatic
  by (auto simp: analyzeFunctionDecl_def Let_def Complexity_signatureBackfill zeroComplexity_def
      split: option.splits)

theorem cyclomatic_by_body_witness:
  "DeclBody getNameDecl \<noteq> None
   \<and> CyclomaticComplexity (Complexity (analyzeFunctionDecl (\<lambda>path. ''user'') getNameDecl ''user.go''))
       = ControlFlowCount (Complexity (analyzeFunctionDecl (\<lambda>path. ''user'') getNameDecl ''user.go'')) + 1
   \<and> 1 \<le> CyclomaticComplexity
             (Complexity (analyzeFunctionDecl (\<lambda>path. ''user'') getNameDecl ''user.go''))
   \<and> DeclBody sqrtDecl = None
   \<and> CyclomaticComplexity (Complexity (analyzeFunctionDecl (\<lambda>path. ''math'') sqrtDecl ''sqrt.go'')) = 0"
  using cyclomatic_by_body[of getNameDecl "\<lambda>path. ''user''" "''user.go''"]
    cyclomatic_by_body[of sqrtDecl "\<lambda>path. ''math''" "''sqrt.go''"]
  by (simp add: getNameDecl_def sqrtDecl_def)

text \<open>
  C7. For every \<open>FunctionInfo\<close> that \<open>analyzeFunctionDecl\<close> produces, with or without a
  body: a return of type exactly \<open>error\<close> sets \<open>HasErrors\<close>; a parameter type or the
  receiver type that begins with \<open>*\<close> sets \<open>HasPointers\<close>. In Scenario D the method
  \<open>func (u *User) GetName() string\<close> is a method with receiver type \<open>*User\<close> and has
  \<open>HasPointers\<close>, although the analysis of its body alone does not set the flag.
\<close>

theorem signature_backfill:
  "((\<exists>r \<in> set (Returns (analyzeFunctionDecl pkgOf d path)). RetType r = ''error'')
      \<longrightarrow> HasErrors (Complexity (analyzeFunctionDecl pkgOf d path)))
   \<and> ((\<exists>p \<in> set (Parameters (analyzeFunctionDecl pkgOf d path)). HasPrefix (ParamType p) ''*'')
      \<longrightarrow> HasPointers (Complexity (analyzeFunctionDecl pkgOf d path)))
   \<and> ((\<exists>r. Receiver (analyzeFunctionDecl pkgOf d path) = Some r \<and> HasPrefix (RecvType r) ''*'')
      \<longrightarrow> HasPointers (Complexity (analyzeFunctionDecl pkgOf d path)))
   \<and> IsMethod (analyzeFunctionDecl pkgOf getNameDecl path)
   \<and> Receiver (analyzeFunctionDecl pkgOf getNameDecl path)
        = Some \<lparr>RecvName = ''u'', RecvType = ''*User''\<rparr>
   \<and> HasPointers (Complexity (analyzeFunctionDecl pkgOf getNameDecl path))
   \<and> \<not> HasPointers (analyzeComplexity getNameBody)"
proof -
  have "IsMethod (analyzeFunctionDecl pkgOf getNameDecl path)"
    and "Receiver (analyzeFunctionDecl pkgOf getNameDecl path)
        = Some \<lparr>RecvName = ''u'', RecvType = ''*User''\<rparr>"
    by (simp_all add: analyzeFunctionDecl_fields declReceiver_def getNameDecl_def)
  moreover have "\<not> HasPointers (analyzeComplexity getNameBody)"
    by (simp add: analyzeComplexity_def getNameBody_def complexityAt_def zeroComplexity_def
        isControlFlow_def Let_def)
  moreover have "HasPointers (Complexity (analyzeFunctionDecl pkgOf getNameDecl path))"
    by (simp add: analyzeFunctionDecl_flags analyzeFunctionDecl_fields declReceiver_def getNameDecl_def HasPrefix_def)
  ultimately show ?thesis
    by (auto simp: analyzeFunctionDecl_flags list_ex_iff)
qed

theorem signature_backfill_witness:
  "(\<exists>r \<in> set (Returns (analyzeFunctionDecl (\<lambda>p. ''store'') flushDecl ''store/flush.go'')). RetType r = ''error'')
   \<and> (\<exists>p \<in> set (Parameters (analyzeFunctionDecl (\<lambda>p. ''store'') flushDecl ''store/flush.go'')). HasPrefix (ParamType p) ''*'')
   \<and> (\<exists>r. Receiver (analyzeFunctionDecl (\<lambda>p. ''store'') flushDecl ''store/flush.go'') = Some r \<and> HasPrefix (RecvType r) ''*'')
   \<and> HasErrors (Complexity (analyzeFunctionDecl (\<lambda>p. ''store'') flushDecl ''store/flush.go''))
   \<and> HasPointers (Complexity (analyzeFunctionDecl (\<lambda>p. ''store'') flushDecl ''store/flush.go''))
   \<and> DeclBody flushDecl = None"
  using signature_backfill[of "\<lambda>p. ''store''" flushDecl "''store/flush.go''"]
  by (simp add: analyzeFunctionDecl_fields declReceiver_def flushDecl_def fieldReturns_def fieldParameters_def HasPrefix_def)

text \<open>
  C4. \<open>ParseFile\<close> on a valid file with a top-level \<open>var\<close> declaration that has an
  initializer does not return: \<open>Variables\<close> is never made, and the assignment to an entry
  of the nil map panics. Here the file is \<open>package limits; var MaxUsers = 100\<close>.
\<close>

theorem ParseFile_var_declaration_panics:
  "ParseFile (\<lambda>path. Some limitsFile) (\<lambda>path. ''limits'') ''limits/limits.go''
     = Inl PanicNilMap"
  by (simp add: ParseFile_def limitsFile_def inspectTopDecl_def analyzeGenDecl_def
      analyzeSpec_def mapAssign_def)

subsection \<open>The reconciler's predicates\<close>

text \<open>
  C2. \<open>isTestFunction\<close> is not total: on a name of 5 to 8 bytes that does not start with
  \<open>Test\<close> the slice expression \<open>name[:9]\<close> is out of range and the function panics. Here
  the name is \<open>GetUser\<close>.
\<close>

theorem isTestFunction_short_name_panics: "isTestFunction ''GetUser'' = Inl PanicSliceBounds"
  by (simp add: isTestFunction_def sliceTo_def)

text \<open>The same for every such name, and what the function returns on \<open>Benchmark\<close> alone.\<close>

lemma isTestFunction_panics:
  assumes "4 < length name" "length name < 9" "take 4 name \<noteq> ''Test''"
  shows "isTestFunction name = Inl PanicSliceBounds"
  using assms by (simp add: isTestFunction_def sliceTo_def)

lemma isTestFunction_Benchmark: "isTestFunction ''Benchmark'' = Inr True"
  by (simp add: isTestFunction_def sliceTo_def)

lemma isExported_eq: "isExported name = Inr (visibilityExported name)"
  by (cases name) (simp_all add: isExported_def visibilityExported_def byteAt_def)

text \<open>
  C5, as the claim states it, fails: \<open>shouldGenerateTest\<close> takes no configuration. With
  \<open>IncludeUnexported\<close> set, the policy of the specification selects the unexported
  \<open>validateUser\<close> and the code excludes it; with the ceiling raised to 20, the policy
  selects an exported function of complexity 18 and the code excludes it.
\<close>

theorem selection_ignores_configuration:
  "isTestFunction (M_Name validateUserInfo) = Inr False
   \<and> shouldGenerateTest validateUserInfo
       \<noteq> Inr (selectionPolicy (DefaultFiltering\<lparr>IncludeUnexported := True\<rparr>) False
               validateUserInfo)
   \<and> isTestFunction ''ValidateUser'' = Inr False
   \<and> shouldGenerateTest
         (validateUserInfo\<lparr>M_Name := ''ValidateUser'',
            M_Complexity := (M_Complexity validateUserInfo)\<lparr>M_CyclomaticComplexity := 18\<rparr>\<rparr>)
       \<noteq> Inr (selectionPolicy (DefaultFiltering\<lparr>MaxComplexity := 20\<rparr>) False
               (validateUserInfo\<lparr>M_Name := ''ValidateUser'',
                  M_Complexity := (M_Complexity validateUserInfo)\<lparr>M_CyclomaticComplexity := 18\<rparr>\<rparr>))"
  by (simp add: shouldGenerateTest_def validateUserInfo_def isTestFunction_def sliceTo_def
      isExported_def byteAt_def selectionPolicy_def DefaultFiltering_def visibilityExported_def)

text \<open>
  C5, amended. For every joined function on which the test-naming predicate does not
  fault, \<open>shouldGenerateTest\<close> applies the five predicates in the order of the
  specification with the fixed rules of the default configuration: the function must be
  exported, and the ceiling is 15. No configuration is consulted.
\<close>

theorem selection_uses_fixed_constants:
  "isTestFunction (M_Name fn) = Inr isTest \<Longrightarrow>
   shouldGenerateTest fn = Inr (selectionPolicy DefaultFiltering isTest fn)"
  by (auto simp add: shouldGenerateTest_def isExported_eq selectionPolicy_def DefaultFiltering_def)

theorem selection_uses_fixed_constants_witness:
  "isTestFunction (M_Name (validateUserInfo\<lparr>M_Name := ''ValidateUser''\<rparr>)) = Inr False
   \<and> shouldGenerateTest (validateUserInfo\<lparr>M_Name := ''ValidateUser''\<rparr>)
       = Inr (selectionPolicy DefaultFiltering False (validateUserInfo\<lparr>M_Name := ''ValidateUser''\<rparr>))
   \<and> selectionPolicy DefaultFiltering False (validateUserInfo\<lparr>M_Name := ''ValidateUser''\<rparr>)"
  using selection_uses_fixed_constants[of "validateUserInfo\<lparr>M_Name := ''ValidateUser''\<rparr>" False]
  by (simp add: validateUserInfo_def isTestFunction_def sliceTo_def selectionPolicy_def
      DefaultFiltering_def visibilityExported_def)

subsection \<open>Go source files only\<close>

lemma foldl_filter_append:
  "foldl (\<lambda>acc x. if P x then acc @ [x] else acc) acc xs = acc @ filter P xs"
  by (induction xs arbitrary: acc) auto

lemma FilterGoFiles_filter:
  "Files (FilterGoFiles dr) = filter (\<lambda>file. isGoSourcePath (NewPath file)) (Files dr)"
  using foldl_filter_append[of "\<lambda>file. isGoSourcePath (NewPath file)" "[]" "Files dr"]
  by (simp add: FilterGoFiles_def isGoSourcePath_def)

lemma analyzeSpecificFile_skip:
  "\<not> isGoSourcePath filePath \<Longrightarrow> analyzeSpecificFile g p names result filePath = Inr result"
  by (auto simp: analyzeSpecificFile_def isGoSourcePath_def)

lemma analyzeSpecificFiles_filter:
  "analyzeSpecificFiles g p names result paths
     = analyzeSpecificFiles g p names result (filter isGoSourcePath paths)"
  by (induction paths arbitrary: result) (auto simp: analyzeSpecificFile_skip split: sum.splits)

text \<open>The functions of a parsed file carry its path.\<close>

lemma map_sum_Inr: "map_sum f g x = Inr y \<longleftrightarrow> (\<exists>b. x = Inr b \<and> y = g b)"
  by (cases x) auto

lemma analyzeSpec_functions:
  "analyzeSpec tok a spec = Inr a' \<Longrightarrow> FileFunctions a' = FileFunctions a"
  by (cases spec) (auto simp: analyzeSpec_def map_sum_Inr split: if_splits)

lemma analyzeSpecs_functions:
  "analyzeSpecs tok a specs = Inr a' \<Longrightarrow> FileFunctions a' = FileFunctions a"
proof (induction specs arbitrary: a)
  case Nil
  then show ?case by simp
next
  case (Cons s specs)
  then show ?case by (auto split: sum.splits dest: analyzeSpec_functions)
qed

lemma analyzeGenDecl_functions:
  "analyzeGenDecl d a = Inr a' \<Longrightarrow> FileFunctions a' = FileFunctions a"
  by (simp add: analyzeGenDecl_def analyzeSpecs_functions)

lemma inspectDecls_functions:
  "inspectDecls a n = Inr a' \<Longrightarrow> FileFunctions a' = FileFunctions a"
  "inspectDeclsList a ns = Inr a' \<Longrightarrow> FileFunctions a' = FileFunctions a"
proof (induction a n and a ns arbitrary: a' and a' rule: inspectDecls_inspectDeclsList.induct)
  case (1 analysis k children)
  from "1.prems" obtain a1
    where a1: "(case k of GenDeclK decl \<Rightarrow> analyzeGenDecl decl analysis | _ \<Rightarrow> Inr analysis) = Inr a1"
      and rest: "inspectDeclsList a1 children = Inr a'"
    by (simp split: sum.splits)
  have "FileFunctions a1 = FileFunctions analysis"
    using a1 by (cases k) (simp_all add: analyzeGenDecl_functions)
  then show ?case using "1.IH"[OF a1 rest] by simp
next
  case (2 analysis)
  then show ?case by simp
next
  case (3 analysis n ns)
  from "3.prems" obtain a1 where a1: "inspectDecls analysis n = Inr a1"
    and rest: "inspectDeclsList a1 ns = Inr a'"
    by (simp split: sum.splits)
  show ?case using "3.IH"(1)[OF a1] "3.IH"(2)[OF a1 rest] by simp
qed

lemma File_analyzeFunctionDecl: "File (analyzeFunctionDecl p d path) = path"
  by (simp add: analyzeFunctionDecl_def Let_def signatureBackfill_def split: option.splits)

lemma inspectTopDecl_files:
  assumes "inspectTopDecl p path a d = Inr a'" "\<forall>fn \<in> set (FileFunctions a). File fn = path"
  shows "\<forall>fn \<in> set (FileFunctions a'). File fn = path"
proof (cases d)
  case (FuncDeclD x)
  then show ?thesis using assms
    by (auto simp: inspectTopDecl_def Let_def File_analyzeFunctionDecl split: option.splits
        dest!: inspectDecls_functions(2))
next
  case (GenDeclD x cs)
  then show ?thesis using assms
    by (auto simp: inspectTopDecl_def split: sum.splits
        dest!: inspectDecls_functions(2) analyzeGenDecl_functions)
qed

lemma inspectTopDecls_files:
  "inspectTopDecls p path a ds = Inr a' \<Longrightarrow> \<forall>fn \<in> set (FileFunctions a). File fn = path
     \<Longrightarrow> \<forall>fn \<in> set (FileFunctions a'). File fn = path"
proof (induction ds arbitrary: a)
  case Nil
  then show ?case by simp
next
  case (Cons d ds)
  from Cons.prems(1) obtain a1 where a1: "inspectTopDecl p path a d = Inr a1"
    and rest: "inspectTopDecls p path a1 ds = Inr a'"
    by (auto split: sum.splits)
  from inspectTopDecl_files[OF a1 Cons.prems(2)] Cons.IH[OF rest] show ?case by blast
qed

lemma ParseFile_files:
  "ParseFile g p path = Inr fa \<Longrightarrow> \<forall>fn \<in> set (FileFunctions fa). File fn = path"
  by (auto simp: ParseFile_def Let_def split: option.splits dest!: inspectTopDecls_files)

lemma analyzeSpecificFile_goOnly:
  assumes "analyzeSpecificFile g p names r path = Inr r'" "goOnly r"
  shows "goOnly r'"
proof (cases "isGoSourcePath path")
  case False
  then show ?thesis using assms by (simp add: analyzeSpecificFile_skip)
next
  case True
  then have go: "\<not> (\<not> HasSuffix path ''.go'' \<or> HasSuffix path ''_test.go'')"
    by (simp add: isGoSourcePath_def)
  show ?thesis
  proof (cases "ParseFile g p path")
    case (Inl e)
    then show ?thesis using assms go by (cases e) (auto simp: analyzeSpecificFile_def)
  next
    case (Inr fa)
    have files: "\<forall>fn \<in> set (FileFunctions fa). File fn = path"
      using ParseFile_files[OF Inr] .
    define ff where "ff = filter (\<lambda>fn. length names = 0 \<or> Name fn \<in> set names) (FileFunctions fa)"
    define ncf where "ncf = \<lparr>FilePath = path, CF_ModifiedFunctions = map Name ff,
                                    FunctionDetails = map (\<lambda>fn. convertToModelFunction fn fa) ff,
                                    CF_FileAnalysis = fa\<rparr>"
    have ncf: "isGoSourcePath (FilePath ncf) \<and> (\<forall>fn \<in> set (FunctionDetails ncf). M_File fn = FilePath ncf)"
      using files True by (auto simp: ncf_def ff_def convertToModelFunction_def)
    have "r' = r \<or> ChangedFiles r' = ChangedFiles r @ [ncf]"
      using assms(1) go Inr
      by (auto simp: analyzeSpecificFile_def Let_def ncf_def ff_def split: if_splits)
    then show ?thesis using assms(2) ncf by (auto simp: goOnly_def)
  qed
qed

lemma analyzeSpecificFiles_goOnly:
  "analyzeSpecificFiles g p names r paths = Inr r' \<Longrightarrow> goOnly r \<Longrightarrow> goOnly r'"
proof (induction paths arbitrary: r)
  case Nil
  then show ?case by simp
next
  case (Cons path paths)
  from Cons.prems(1) obtain r1 where r1: "analyzeSpecificFile g p names r path = Inr r1"
    and rest: "analyzeSpecificFiles g p names r1 paths = Inr r'"
    by (auto split: sum.splits)
  show ?case using Cons.IH[OF rest analyzeSpecificFile_goOnly[OF r1 Cons.prems(2)]] .
qed

lemma selectTargets_subset:
  "selectTargets acc fns = Inr ts \<Longrightarrow> set ts \<subseteq> set acc \<union> set fns"
proof (induction fns arbitrary: acc)
  case Nil
  then show ?case by simp
next
  case (Cons fn fns)
  from Cons.prems obtain keep where k: "shouldGenerateTest fn = Inr keep"
    and rest: "selectTargets (if keep then acc @ [fn] else acc) fns = Inr ts"
    by (auto split: sum.splits)
  from Cons.IH[OF rest] show ?case by (auto split: if_splits)
qed

text \<open>
  C10. \<open>FilterGoFiles\<close> keeps exactly the files whose new path ends in \<open>.go\<close> and not in
  \<open>_test.go\<close>, in their order. \<open>AnalyzeSpecificFunctions\<close> skips every other path of its
  argument: the outcome is that of the call on the Go source paths alone, and whenever
  it returns, every changed file and every target of the result is at such a path.
\<close>

theorem go_files_only:
  "Files (FilterGoFiles dr) = filter (\<lambda>file. isGoSourcePath (NewPath file)) (Files dr)
   \<and> AnalyzeSpecificFunctions g p paths names
       = AnalyzeSpecificFunctions g p (filter isGoSourcePath paths) names
   \<and> (AnalyzeSpecificFunctions g p paths names = Inr r \<longrightarrow>
        (\<forall>cf \<in> set (ChangedFiles r). isGoSourcePath (FilePath cf))
        \<and> (\<forall>t \<in> set (GenerationTargets r). isGoSourcePath (M_File t)))"
proof (intro conjI impI)
  show "Files (FilterGoFiles dr) = filter (\<lambda>file. isGoSourcePath (NewPath file)) (Files dr)"
    by (rule FilterGoFiles_filter)
  show "AnalyzeSpecificFunctions g p paths names
       = AnalyzeSpecificFunctions g p (filter isGoSourcePath paths) names"
    using analyzeSpecificFiles_filter[of g p names _ paths]
    by (simp add: AnalyzeSpecificFunctions_def)
next
  assume a: "AnalyzeSpecificFunctions g p paths names = Inr r"
  let ?r0 = "\<lparr>ChangedFiles = [], TotalFunctions = 0, ModifiedFunctions = 0, GenerationTargets = []\<rparr>"
  obtain r1 where r1: "analyzeSpecificFiles g p names ?r0 paths = Inr r1"
    using a by (cases "analyzeSpecificFiles g p names ?r0 paths")
      (simp_all add: AnalyzeSpecificFunctions_def)
  obtain ts where ts: "buildGenerationTargets (ChangedFiles r1) = Inr ts"
    using a r1 by (cases "buildGenerationTargets (ChangedFiles r1)")
      (simp_all add: AnalyzeSpecificFunctions_def)
  have r: "r = r1\<lparr>GenerationTargets := ts\<rparr>"
    using a r1 ts by (simp add: AnalyzeSpecificFunctions_def)
  have "goOnly ?r0" by (simp add: goOnly_def)
  then have g1: "goOnly r1" using analyzeSpecificFiles_goOnly[OF r1] by simp
  then show "\<forall>cf \<in> set (ChangedFiles r). isGoSourcePath (FilePath cf)"
    using r by (simp add: goOnly_def)
  have "set ts \<subseteq> set (concat (map FunctionDetails (ChangedFiles r1)))"
    using selectTargets_subset[of "[]" "concat (map FunctionDetails (ChangedFiles r1))" ts] ts
    unfolding buildGenerationTargets_def by simp
  then have "\<forall>t \<in> set ts. \<exists>cf \<in> set (ChangedFiles r1). t \<in> set (FunctionDetails cf)"
    by auto
  then have "\<forall>t \<in> set ts. isGoSourcePath (M_File t)"
    using g1 unfolding goOnly_def by metis
  then show "\<forall>t \<in> set (GenerationTargets r). isGoSourcePath (M_File t)"
    using r by simp
qed

text \<open>The run of \<open>AnalyzeSpecificFunctions\<close> on a Go source file that declares \<open>Sqrt\<close>.\<close>

lemma analyzeSpecificFile_sqrt: "analyzeSpecificFile (\<lambda>path::string. Some sqrtFile) (\<lambda>path::string. ''math'') [] \<lparr>ChangedFiles = [], TotalFunctions = 0,
                 ModifiedFunctions = 0, GenerationTargets = []\<rparr> ''sqrt.go''
             = Inr \<lparr>ChangedFiles =
                      [\<lparr>FilePath = ''sqrt.go'', CF_ModifiedFunctions = [''Sqrt''],
                        FunctionDetails =
                          [convertToModelFunction (analyzeFunctionDecl (\<lambda>path::string. ''math'') sqrtDecl ''sqrt.go'')
                             \<lparr>PackageName = ''math'', Imports = [],
                               FileFunctions = [analyzeFunctionDecl (\<lambda>path::string. ''math'') sqrtDecl ''sqrt.go''],
                               Constants = Some Map.empty, Variables = None, Types = []\<rparr>],
                        CF_FileAnalysis =
                          \<lparr>PackageName = ''math'', Imports = [],
                            FileFunctions = [analyzeFunctionDecl (\<lambda>path::string. ''math'') sqrtDecl ''sqrt.go''],
                            Constants = Some Map.empty, Variables = None, Types = []\<rparr>\<rparr>],
                    TotalFunctions = 1, ModifiedFunctions = 1, GenerationTargets = []\<rparr>"
proof -
  have pf: "ParseFile (\<lambda>path::string. Some sqrtFile) (\<lambda>path::string. ''math'') ''sqrt.go''
     = Inr \<lparr>PackageName = ''math'', Imports = [],
                            FileFunctions = [analyzeFunctionDecl (\<lambda>path::string. ''math'') sqrtDecl ''sqrt.go''],
                            Constants = Some Map.empty, Variables = None, Types = []\<rparr>"
    by (simp add: ParseFile_def sqrtFile_def inspectTopDecl_def Let_def sqrtDecl_def)
  have nm: "Name (analyzeFunctionDecl (\<lambda>path::string. ''math'') sqrtDecl ''sqrt.go'') = ''Sqrt''"
    by (simp add: analyzeFunctionDecl_fields sqrtDecl_def)
  have sfx: "HasSuffix ''sqrt.go'' ''.go''" "\<not> HasSuffix ''sqrt.go'' ''_test.go''"
    by (simp_all add: HasSuffix_def)
  show ?thesis
    unfolding analyzeSpecificFile_def pf using sfx nm by (simp add: Let_def)
qed


lemma sqrt_model:
  "M_Name (convertToModelFunction (analyzeFunctionDecl (\<lambda>path::string. ''math'') sqrtDecl ''sqrt.go'') fa) = ''Sqrt''"
  "M_Parameters (convertToModelFunction (analyzeFunctionDecl (\<lambda>path::string. ''math'') sqrtDecl ''sqrt.go'') fa) \<noteq> []"
  "M_CyclomaticComplexity (M_Complexity
      (convertToModelFunction (analyzeFunctionDecl (\<lambda>path::string. ''math'') sqrtDecl ''sqrt.go'') fa)) = 0"
proof -
  have "CyclomaticComplexity (Complexity (analyzeFunctionDecl (\<lambda>path::string. ''math'') sqrtDecl ''sqrt.go'')) = 0"
    by (simp add: analyzeFunctionDecl_def Let_def Complexity_signatureBackfill zeroComplexity_def
        sqrtDecl_def)
  then show "M_CyclomaticComplexity (M_Complexity
      (convertToModelFunction (analyzeFunctionDecl (\<lambda>path::string. ''math'') sqrtDecl ''sqrt.go'') fa)) = 0"
    by (simp add: convertToModelFunction_def)
  show "M_Name (convertToModelFunction (analyzeFunctionDecl (\<lambda>path::string. ''math'') sqrtDecl ''sqrt.go'') fa) = ''Sqrt''"
    by (simp add: convertToModelFunction_def analyzeFunctionDecl_fields sqrtDecl_def)
  show "M_Parameters (convertToModelFunction (analyzeFunctionDecl (\<lambda>path::string. ''math'') sqrtDecl ''sqrt.go'') fa) \<noteq> []"
    by (simp add: convertToModelFunction_def analyzeFunctionDecl_fields sqrtDecl_def
        fieldParameters_def)
qed

lemma sqrt_selected:
  "shouldGenerateTest
     (convertToModelFunction (analyzeFunctionDecl (\<lambda>path::string. ''math'') sqrtDecl ''sqrt.go'') fa) = Inr True"
  by (simp add: shouldGenerateTest_def sqrt_model isTestFunction_def isExported_def byteAt_def)

lemma AnalyzeSpecificFunctions_sqrt:
  "\<exists>r. AnalyzeSpecificFunctions (\<lambda>path::string. Some sqrtFile) (\<lambda>path::string. ''math'') [''sqrt.go''] [] = Inr r
          \<and> map FilePath (ChangedFiles r) = [''sqrt.go'']
          \<and> map M_Name (GenerationTargets r) = [''Sqrt'']"
  by (simp add: AnalyzeSpecificFunctions_def analyzeSpecificFile_sqrt buildGenerationTargets_def
      sqrt_selected sqrt_model)


theorem go_files_only_witness:
  "Files (FilterGoFiles \<lparr>Files =
       [\<lparr>OldPath = [], NewPath = ''user.go'', Changes = [], Functions = []\<rparr>,
        \<lparr>OldPath = [], NewPath = ''user_test.go'', Changes = [], Functions = []\<rparr>,
        \<lparr>OldPath = [], NewPath = ''README.md'', Changes = [], Functions = []\<rparr>,
        \<lparr>OldPath = [], NewPath = ''handler.go'', Changes = [], Functions = []\<rparr>]\<rparr>)
     = [\<lparr>OldPath = [], NewPath = ''user.go'', Changes = [], Functions = []\<rparr>,
        \<lparr>OldPath = [], NewPath = ''handler.go'', Changes = [], Functions = []\<rparr>]
   \<and> (\<exists>r. AnalyzeSpecificFunctions (\<lambda>path. Some sqrtFile) (\<lambda>path. ''math'')
              [''README.md'', ''sqrt.go'', ''sqrt_test.go''] [] = Inr r
          \<and> map FilePath (ChangedFiles r) = [''sqrt.go'']
          \<and> map M_Name (GenerationTargets r) = [''Sqrt'']
          \<and> list_all (\<lambda>cf. isGoSourcePath (FilePath cf)) (ChangedFiles r)
          \<and> list_all (\<lambda>t. isGoSourcePath (M_File t)) (GenerationTargets r))"
proof -
  let ?dr = "\<lparr>Files =
       [\<lparr>OldPath = [], NewPath = ''user.go'', Changes = [], Functions = []\<rparr>,
        \<lparr>OldPath = [], NewPath = ''user_test.go'', Changes = [], Functions = []\<rparr>,
        \<lparr>OldPath = [], NewPath = ''README.md'', Changes = [], Functions = []\<rparr>,
        \<lparr>OldPath = [], NewPath = ''handler.go'', Changes = [], Functions = []\<rparr>]\<rparr>"
  let ?g = "\<lambda>path::string. Some sqrtFile"
  let ?p = "\<lambda>path::string. ''math''"
  have go: "filter isGoSourcePath [''README.md'', ''sqrt.go'', ''sqrt_test.go''] = [''sqrt.go'']"
    by (simp add: isGoSourcePath_def HasSuffix_def)
  have fl: "filter (\<lambda>file. isGoSourcePath (NewPath file)) (Files ?dr)
     = [\<lparr>OldPath = [], NewPath = ''user.go'', Changes = [], Functions = []\<rparr>,
        \<lparr>OldPath = [], NewPath = ''handler.go'', Changes = [], Functions = []\<rparr>]"
    by (simp add: isGoSourcePath_def HasSuffix_def)
  obtain r where r: "AnalyzeSpecificFunctions ?g ?p [''sqrt.go''] [] = Inr r"
    and r1: "map FilePath (ChangedFiles r) = [''sqrt.go'']"
    and r2: "map M_Name (GenerationTargets r) = [''Sqrt'']"
    using AnalyzeSpecificFunctions_sqrt by (elim exE conjE)
  note inst = go_files_only[of ?dr ?g ?p "[''README.md'', ''sqrt.go'', ''sqrt_test.go'']" "[]" r]
  have a: "Files (FilterGoFiles ?dr)
     = [\<lparr>OldPath = [], NewPath = ''user.go'', Changes = [], Functions = []\<rparr>,
        \<lparr>OldPath = [], NewPath = ''handler.go'', Changes = [], Functions = []\<rparr>]"
    using inst fl by (elim conjE) (rule trans)
  have eq: "AnalyzeSpecificFunctions ?g ?p [''README.md'', ''sqrt.go'', ''sqrt_test.go''] [] = Inr r"
    using inst r unfolding go by (elim conjE) (rule trans)
  have "(\<forall>cf \<in> set (ChangedFiles r). isGoSourcePath (FilePath cf))
        \<and> (\<forall>t \<in> set (GenerationTargets r). isGoSourcePath (M_File t))"
    using inst eq by (elim conjE) (erule mp)
  then have b: "list_all (\<lambda>cf. isGoSourcePath (FilePath cf)) (ChangedFiles r)
      \<and> list_all (\<lambda>t. isGoSourcePath (M_File t)) (GenerationTargets r)"
    by (simp only: list_all_iff)
  show ?thesis
    by (rule conjI[OF a]) (rule exI[of _ r], intro conjI eq r1 r2 b[THEN conjunct1] b[THEN conjunct2])
qed

subsection \<open>The signature round trip\<close>

text \<open>Identifiers hold no white space, parenthesis or comma, at either end or inside.\<close>

lemma asciiSpace_code: "asciiSpace c \<Longrightarrow> (of_char c :: nat) \<in> {9, 10, 11, 12, 13, 32}"
  by (auto simp: asciiSpace_def)

lemma identRunes_Cons:
  assumes "identRunes (c # s)"
  shows "((of_char c :: nat) < 128 \<and> identByte c \<and> identRunes s)
       \<or> (194 \<le> (of_char c :: nat) \<and> (of_char c :: nat) \<le> 223
           \<and> (\<exists>c1 s'. s = c1 # s' \<and> utf8Cont c1 \<and> [c, c1] \<notin> set unicodeSpaces \<and> identRunes s'))
       \<or> (224 \<le> (of_char c :: nat) \<and> (of_char c :: nat) \<le> 239
           \<and> (\<exists>c1 c2 s'. s = c1 # c2 # s' \<and> utf8Cont c1 \<and> utf8Cont c2
                  \<and> [c, c1, c2] \<notin> set unicodeSpaces \<and> identRunes s'))
       \<or> (240 \<le> (of_char c :: nat) \<and> (of_char c :: nat) \<le> 244
           \<and> (\<exists>c1 c2 c3 s'. s = c1 # c2 # c3 # s' \<and> utf8Cont c1 \<and> utf8Cont c2 \<and> utf8Cont c3
                  \<and> identRunes s'))"
proof (cases "(of_char c :: nat) < 128")
  case True
  then show ?thesis using assms by simp
next
  case False
  note hi = this
  show ?thesis
  proof (cases "194 \<le> (of_char c :: nat) \<and> (of_char c :: nat) \<le> 223")
    case True
    then show ?thesis using assms hi by (cases s) simp_all
  next
    case False
    note n2 = this
    show ?thesis
    proof (cases "224 \<le> (of_char c :: nat) \<and> (of_char c :: nat) \<le> 239")
      case True
      then have "case s of c1 # c2 # s' \<Rightarrow>
             utf8Cont c1 \<and> utf8Cont c2 \<and> [c, c1, c2] \<notin> set unicodeSpaces \<and> identRunes s'
         | _ \<Rightarrow> False"
        using assms hi n2 by simp
      then show ?thesis using True
        by (cases s; cases "tl s") auto
    next
      case False
      then have c4: "240 \<le> (of_char c :: nat) \<and> (of_char c :: nat) \<le> 244"
        and "case s of c1 # c2 # c3 # s' \<Rightarrow> utf8Cont c1 \<and> utf8Cont c2 \<and> utf8Cont c3 \<and> identRunes s'
         | _ \<Rightarrow> False"
        using assms hi n2 by (simp_all split: if_splits)
      then show ?thesis
        by (cases s; cases "tl s"; cases "tl (tl s)") auto
    qed
  qed
qed

lemma identRunes_chars: "identRunes s \<Longrightarrow> \<forall>c \<in> set s. identChar c"
proof (induction s rule: length_induct)
  case (1 s)
  have ih: "length t < length s \<Longrightarrow> identRunes t \<Longrightarrow> \<forall>c \<in> set t. identChar c" for t
    using "1.IH" by blast
  show ?case
  proof (cases s)
    case Nil
    then show ?thesis by simp
  next
    case (Cons c t)
    from identRunes_Cons[OF "1.prems"[unfolded Cons]]
    show ?thesis
    proof (elim disjE conjE exE)
      assume a: "(of_char c :: nat) < 128" "identByte c" "identRunes t"
      have "\<forall>c \<in> set t. identChar c" using ih[of t] a Cons by simp
      then show ?thesis using a Cons by (simp add: identChar_def)
    next
      fix c1 s' assume a: "194 \<le> (of_char c :: nat)" "t = c1 # s'" "utf8Cont c1" "identRunes s'"
      have "\<forall>c \<in> set s'. identChar c" using ih[of s'] a Cons by simp
      then show ?thesis using a Cons by (simp add: identChar_def utf8Cont_def)
    next
      fix c1 c2 s' assume a: "224 \<le> (of_char c :: nat)" "t = c1 # c2 # s'" "utf8Cont c1"
        "utf8Cont c2" "identRunes s'"
      have "\<forall>c \<in> set s'. identChar c" using ih[of s'] a Cons by simp
      then show ?thesis using a Cons by (simp add: identChar_def utf8Cont_def)
    next
      fix c1 c2 c3 s' assume a: "240 \<le> (of_char c :: nat)" "t = c1 # c2 # c3 # s'" "utf8Cont c1"
        "utf8Cont c2" "utf8Cont c3" "identRunes s'"
      have "\<forall>c \<in> set s'. identChar c" using ih[of s'] a Cons by simp
      then show ?thesis using a Cons by (simp add: identChar_def utf8Cont_def)
    qed
  qed
qed

lemma space_lead:
  "p \<in> set unicodeSpaces \<Longrightarrow> HasPrefix (x # xs) p
     \<Longrightarrow> x = CHR 0xC2 \<or> x = CHR 0xE1 \<or> x = CHR 0xE2 \<or> x = CHR 0xE3"
  by (auto simp: unicodeSpaces_def HasPrefix_def)

lemma space_lead_code:
  "p \<in> set unicodeSpaces \<Longrightarrow> HasPrefix (x # xs) p
     \<Longrightarrow> (of_char x :: nat) \<in> {194, 225, 226, 227}"
  using space_lead[of p x xs] by auto

lemma space_two:
  "p \<in> set unicodeSpaces \<Longrightarrow> HasPrefix (x # y # xs) p \<Longrightarrow> (of_char x :: nat) = 194
     \<Longrightarrow> p = [x, y]"
  by (auto simp: unicodeSpaces_def HasPrefix_def)

lemma space_three:
  "p \<in> set unicodeSpaces \<Longrightarrow> HasPrefix (x # y # z # xs) p \<Longrightarrow> (of_char x :: nat) \<noteq> 194
     \<Longrightarrow> p = [x, y, z]"
  by (auto simp: unicodeSpaces_def HasPrefix_def)


lemma cont_not_lead:
  "utf8Cont x \<Longrightarrow> p \<in> set unicodeSpaces \<Longrightarrow> \<not> HasPrefix (x # xs) p"
  using space_lead_code[of p x xs] by (auto simp: utf8Cont_def)

lemma no_space_inside:
  "identRunes s \<Longrightarrow> p \<in> set unicodeSpaces \<Longrightarrow> i < length s
     \<Longrightarrow> \<not> HasPrefix (drop i s @ rest) p"
proof (induction s arbitrary: i rule: length_induct)
  case (1 s)
  have ih: "length t < length s \<Longrightarrow> identRunes t \<Longrightarrow> k < length t
      \<Longrightarrow> \<not> HasPrefix (drop k t @ rest) p" for t k
    using "1.IH" "1.prems"(2) by blast
  obtain c t where s: "s = c # t" using "1.prems"(3) by (cases s) auto
  from identRunes_Cons[OF "1.prems"(1)[unfolded s]]
  show ?case
  proof (elim disjE conjE exE)
    assume a: "(of_char c :: nat) < 128" "identRunes t"
    show ?thesis
    proof (cases i)
      case 0
      then show ?thesis using space_lead_code[OF "1.prems"(2), of c "t @ rest"] a s by auto
    next
      case (Suc k)
      then show ?thesis using ih[of t k] a s "1.prems"(3) by simp
    qed
  next
    fix c1 s'
    assume a: "194 \<le> (of_char c :: nat)" "(of_char c :: nat) \<le> 223" "t = c1 # s'" "utf8Cont c1"
      "[c, c1] \<notin> set unicodeSpaces" "identRunes s'"
    consider "i = 0" | "i = 1" | k where "i = Suc (Suc k)"
      by (cases i; cases "i - 1") auto
    then show ?thesis
    proof cases
      case 1
      have "HasPrefix (c # c1 # (s' @ rest)) p \<Longrightarrow> False"
      proof -
        assume h: "HasPrefix (c # c1 # (s' @ rest)) p"
        have "(of_char c :: nat) = 194"
          using space_lead_code[OF "1.prems"(2) h] a(1,2) by auto
        then have "p = [c, c1]" using space_two[OF "1.prems"(2) h] by simp
        then show False using a(5) "1.prems"(2) by simp
      qed
      then show ?thesis using 1 s a(3) by auto
    next
      case 2
      then show ?thesis using cont_not_lead[OF a(4) "1.prems"(2), of "s' @ rest"] s a(3) by simp
    next
      case 3
      then show ?thesis using ih[of s' k] a s "1.prems"(3) by simp
    qed
  next
    fix c1 c2 s'
    assume a: "224 \<le> (of_char c :: nat)" "(of_char c :: nat) \<le> 239" "t = c1 # c2 # s'"
      "utf8Cont c1" "utf8Cont c2" "[c, c1, c2] \<notin> set unicodeSpaces" "identRunes s'"
    consider "i = 0" | "i = 1" | "i = 2" | k where "i = Suc (Suc (Suc k))"
      by (cases i; cases "i - 1"; cases "i - 2") auto
    then show ?thesis
    proof cases
      case 1
      have "HasPrefix (c # c1 # c2 # (s' @ rest)) p \<Longrightarrow> False"
      proof -
        assume h: "HasPrefix (c # c1 # c2 # (s' @ rest)) p"
        have "(of_char c :: nat) \<noteq> 194" using a(1) by simp
        then have "p = [c, c1, c2]" using space_three[OF "1.prems"(2) h] by simp
        then show False using a(6) "1.prems"(2) by simp
      qed
      then show ?thesis using 1 s a(3) by auto
    next
      case 2
      then show ?thesis
        using cont_not_lead[OF a(4) "1.prems"(2), of "c2 # s' @ rest"] s a(3) by simp
    next
      case 3
      then show ?thesis
        using cont_not_lead[OF a(5) "1.prems"(2), of "s' @ rest"] s a(3) by simp
    next
      case 4
      then show ?thesis using ih[of s' k] a s "1.prems"(3) by simp
    qed
  next
    fix c1 c2 c3 s'
    assume a: "240 \<le> (of_char c :: nat)" "t = c1 # c2 # c3 # s'"
      "utf8Cont c1" "utf8Cont c2" "utf8Cont c3" "identRunes s'"
    consider "i = 0" | "i = 1" | "i = 2" | "i = 3" | k where "i = Suc (Suc (Suc (Suc k)))"
      by (cases i; cases "i - 1"; cases "i - 2"; cases "i - 3") auto
    then show ?thesis
    proof cases
      case 1
      then show ?thesis
        using space_lead_code[OF "1.prems"(2), of c "c1 # c2 # c3 # s' @ rest"] a(1) s a(2)
        by auto
    next
      case 2
      then show ?thesis
        using cont_not_lead[OF a(3) "1.prems"(2), of "c2 # c3 # s' @ rest"] s a(2) by simp
    next
      case 3
      then show ?thesis
        using cont_not_lead[OF a(4) "1.prems"(2), of "c3 # s' @ rest"] s a(2) by simp
    next
      case 4
      then show ?thesis
        using cont_not_lead[OF a(5) "1.prems"(2), of "s' @ rest"] s a(2) by simp
    next
      case 5
      then show ?thesis using ih[of s' k] a s "1.prems"(3) by simp
    qed
  qed
qed

lemma identChar_not_space: "identChar c \<Longrightarrow> \<not> asciiSpace c"
  using asciiSpace_code[of c] by (auto simp: identChar_def identByte_def)

lemma identifier_spacePrefix:
  assumes "goIdentifier name"
  shows "spacePrefixLen (name @ rest) = 0"
proof -
  obtain c t where n: "name = c # t" using assms by (cases name) (auto simp: goIdentifier_def)
  have r: "identRunes name" using assms by (simp add: goIdentifier_def)
  have "\<not> asciiSpace c" using identRunes_chars[OF r] n identChar_not_space by simp
  moreover have "find (HasPrefix (name @ rest)) unicodeSpaces = None"
    using no_space_inside[OF r, of _ 0 rest] n by (auto simp: find_None_iff)
  ultimately show ?thesis using n by (simp add: spacePrefixLen_def)
qed

lemma HasSuffix_drop:
  "HasSuffix s p \<Longrightarrow> p \<noteq> [] \<Longrightarrow> length s - length p < length s \<and> HasPrefix (drop (length s - length p) s @ []) p"
proof -
  assume a: "HasSuffix s p" and ne: "p \<noteq> []"
  have "0 < length p" using ne by simp
  moreover have "length p \<le> length s" using a by (simp add: HasSuffix_def)
  ultimately have "length s - length p < length s" by arith
  then show ?thesis using a by (simp add: HasSuffix_def HasPrefix_def)
qed

lemma unicodeSpaces_nonempty: "p \<in> set unicodeSpaces \<Longrightarrow> p \<noteq> []"
  by (auto simp: unicodeSpaces_def)

lemma identifier_spaceSuffix:
  assumes "goIdentifier name"
  shows "spaceSuffixLen name = 0"
proof -
  have ne: "name \<noteq> []" and r: "identRunes name" using assms by (simp_all add: goIdentifier_def)
  have "\<not> asciiSpace (last name)" using identRunes_chars[OF r] ne identChar_not_space by simp
  moreover have "find (HasSuffix name) unicodeSpaces = None"
  proof -
    have "\<not> HasSuffix name p" if "p \<in> set unicodeSpaces" for p
      using HasSuffix_drop[of name p] unicodeSpaces_nonempty[OF that]
        no_space_inside[OF r that, of "length name - length p" "[]"] by blast
    then show ?thesis by (auto simp: find_None_iff)
  qed
  ultimately show ?thesis using ne by (simp add: spaceSuffixLen_def)
qed

lemma TrimSpace_identifier: "goIdentifier name \<Longrightarrow> TrimSpace name = name"
  using identifier_spacePrefix[of name "[]"] identifier_spaceSuffix[of name]
  by (simp add: TrimSpace_def)

lemma dropWhile_hd: "s \<noteq> [] \<Longrightarrow> \<not> P (hd s) \<Longrightarrow> dropWhile P s = s"
  by (cases s) auto

lemma Trim_identifier:
  assumes "goIdentifier name"
  shows "Trim name [CHR '' '', CHR 0x09, CHR ''*'', CHR ''&'', CHR ''['', CHR '']''] = name"
proof -
  have ne: "name \<noteq> []" and r: "identRunes name" using assms by (simp_all add: goIdentifier_def)
  have cut: "identChar c \<Longrightarrow> c \<notin> set [CHR '' '', CHR 0x09, CHR ''*'', CHR ''&'', CHR ''['', CHR '']'']" for c
    by (auto simp: identChar_def identByte_def)
  have h: "hd name \<notin> set [CHR '' '', CHR 0x09, CHR ''*'', CHR ''&'', CHR ''['', CHR '']'']"
    using identRunes_chars[OF r] ne cut by simp
  have l: "hd (rev name) \<notin> set [CHR '' '', CHR 0x09, CHR ''*'', CHR ''&'', CHR ''['', CHR '']'']"
    using identRunes_chars[OF r] ne cut by (simp add: hd_rev)
  show ?thesis
    unfolding Trim_def using dropWhile_hd[OF ne, of "\<lambda>c. c \<in> set [CHR '' '', CHR 0x09, CHR ''*'', CHR ''&'', CHR ''['', CHR '']'']"] h
      dropWhile_hd[of "rev name" "\<lambda>c. c \<in> set [CHR '' '', CHR 0x09, CHR ''*'', CHR ''&'', CHR ''['', CHR '']'']"] l ne
    by simp
qed

text \<open>Trimming leaves the text up to a close parenthesis alone.\<close>

lemma pattern_no_paren: "p \<in> set unicodeSpaces \<Longrightarrow> CHR '')'' \<notin> set p"
  by (auto simp: unicodeSpaces_def)

lemma suffix_after_paren:
  assumes "HasSuffix (a @ CHR '')'' # b) p" "p \<in> set unicodeSpaces"
  shows "length p \<le> length b"
proof (rule ccontr)
  assume "\<not> length p \<le> length b"
  then have lt: "length b < length p" by simp
  let ?s = "a @ CHR '')'' # b"
  let ?k = "length ?s - length p"
  have le: "length p \<le> length ?s" and d: "drop ?k ?s = p"
    using assms(1) by (simp_all add: HasSuffix_def)
  have k: "?k \<le> length a" using lt le by simp
  then have "drop ?k ?s = drop ?k a @ CHR '')'' # b" by simp
  then have "CHR '')'' \<in> set p" using d by (metis in_set_conv_decomp)
  then show False using pattern_no_paren[OF assms(2)] by simp
qed

lemma trimRightSpace_paren:
  "\<exists>b'. trimRightSpace (a @ CHR '')'' # b) = a @ CHR '')'' # b'"
proof (induction b rule: length_induct)
  case (1 b)
  let ?s = "a @ CHR '')'' # b"
  show ?case
  proof (cases "spaceSuffixLen ?s = 0")
    case True
    then show ?thesis by (subst trimRightSpace.simps) auto
  next
    case False
    have n: "0 < spaceSuffixLen ?s \<and> spaceSuffixLen ?s \<le> length b"
    proof (cases "asciiSpace (last ?s)")
      case True
      then have "b \<noteq> []" by (auto simp: asciiSpace_def)
      then show ?thesis using True by (cases b) (simp_all add: spaceSuffixLen_def)
    next
      case nsp: False
      then obtain p where p: "find (HasSuffix ?s) unicodeSpaces = Some p"
        using False by (auto simp: spaceSuffixLen_def split: option.splits)
      then have "p \<in> set unicodeSpaces" "HasSuffix ?s p"
        by (auto simp: find_Some_iff)
      then have "length p \<le> length b" "p \<noteq> []"
        using suffix_after_paren unicodeSpaces_nonempty by blast+
      then show ?thesis using p nsp by (simp add: spaceSuffixLen_def)
    qed
    define m where "m = spaceSuffixLen ?s"
    have len: "length ?s = length a + Suc (length b)" by simp
    have e: "length ?s - m = length a + Suc (length b - m)"
      using n len unfolding m_def by arith
    have tk: "take (length ?s - m) ?s = a @ CHR '')'' # take (length b - m) b"
      unfolding e by simp
    have "length b - m < length b" using n unfolding m_def by arith
    then have "length (take (length b - m) b) < length b" by simp
    then obtain b' where "trimRightSpace (a @ CHR '')'' # take (length b - m) b) = a @ CHR '')'' # b'"
      using "1.IH" by blast
    then show ?thesis using False tk
      by (subst trimRightSpace.simps) (simp add: m_def)
  qed
qed

lemma TrimSpace_paren:
  "spacePrefixLen (A @ CHR '')'' # T) = 0 \<Longrightarrow> \<exists>T'. TrimSpace (A @ CHR '')'' # T) = A @ CHR '')'' # T'"
  using trimRightSpace_paren[of A T] by (simp add: TrimSpace_def)

lemma spacePrefix_ascii:
  "\<not> asciiSpace c \<Longrightarrow> (of_char c :: nat) < 128 \<Longrightarrow> spacePrefixLen (c # s) = 0"
proof -
  assume a: "\<not> asciiSpace c" "(of_char c :: nat) < 128"
  have "find (HasPrefix (c # s)) unicodeSpaces = None"
    using space_lead_code[of _ c s] a(2) by (auto simp: find_None_iff)
  then show ?thesis using a(1) by (simp add: spacePrefixLen_def)
qed

lemma Index_char:
  "c \<notin> set s \<Longrightarrow> Index (s @ c # t) [c] = int (length s)"
  by (induction s) (auto simp: HasPrefix_def Let_def)

lemma Index_close_space:
  "\<not> hasCloseSpace s \<Longrightarrow> Index (s @ '') '' @ t) '') '' = int (length s)"
proof (induction s rule: hasCloseSpace.induct)
  case (1 a b s)
  then show ?case by (auto simp: HasPrefix_def Let_def)
next
  case 2
  then show ?case by (simp add: HasPrefix_def)
next
  case (3 v)
  then show ?case by (auto simp: HasPrefix_def Let_def)
qed

lemma hasCloseSpace_append:
  "hasCloseSpace (s @ t) \<longleftrightarrow>
     hasCloseSpace s \<or> hasCloseSpace t \<or> (s \<noteq> [] \<and> t \<noteq> [] \<and> last s = CHR '')'' \<and> hd t = CHR '' '')"
proof (induction s rule: hasCloseSpace.induct)
  case (1 a b s)
  then show ?case by auto
next
  case 2
  then show ?case by simp
next
  case (3 v)
  then show ?case by (cases t) auto
qed

lemma no_paren_no_closeSpace: "CHR '')'' \<notin> set s \<Longrightarrow> \<not> hasCloseSpace s"
  by (induction s rule: hasCloseSpace.induct) auto

lemma identChar_plain:
  "identChar c \<Longrightarrow> c \<noteq> CHR ''('' \<and> c \<noteq> CHR '')'' \<and> c \<noteq> CHR '','' \<and> c \<noteq> CHR '' ''"
  by (auto simp: identChar_def identByte_def)

lemma identifier_chars: "goIdentifier n \<Longrightarrow> \<forall>c \<in> set n. identChar c"
  using identRunes_chars[of n] by (simp add: goIdentifier_def)

lemma identifier_plain:
  "goIdentifier n \<Longrightarrow> CHR ''('' \<notin> set n \<and> CHR '')'' \<notin> set n \<and> CHR '','' \<notin> set n \<and> CHR '' '' \<notin> set n"
  using identifier_chars[of n] identChar_plain by blast

lemma identifier_hd:
  "goIdentifier n \<Longrightarrow> n \<noteq> [] \<and> hd n \<noteq> CHR '' '' \<and> hd n \<noteq> CHR ''(''"
  using identifier_plain[of n] by (cases n) (auto simp: goIdentifier_def)

text \<open>Rendered types.\<close>

lemma hasCloseSpace_Cons:
  "hasCloseSpace (a # s) \<longleftrightarrow> (s \<noteq> [] \<and> a = CHR '')'' \<and> hd s = CHR '' '') \<or> hasCloseSpace s"
  by (cases s) auto

lemma typeString_shape:
  "wfExpr e \<Longrightarrow> extractTypeString e \<noteq> [] \<and> hd (extractTypeString e) \<noteq> CHR '' ''
     \<and> hd (extractTypeString e) \<noteq> CHR ''('' \<and> \<not> hasCloseSpace (extractTypeString e)"
proof (induction e)
  case (Ident x)
  then show ?case using identifier_hd[of x] identifier_plain[of x] no_paren_no_closeSpace[of x]
    by simp
next
  case (ChanType dir e)
  then show ?case
    by (cases dir) (simp_all add: hasCloseSpace_Cons del: hasCloseSpace.simps(1))
next
  case (SelectorExpr e sel)
  then show ?case
    using identifier_hd[of sel] identifier_plain[of sel] no_paren_no_closeSpace[of sel]
    by (simp add: hasCloseSpace_Cons hasCloseSpace_append del: hasCloseSpace.simps(1))
qed (simp_all add: hasCloseSpace_Cons hasCloseSpace_append del: hasCloseSpace.simps(1))

text \<open>\<open>extractFunctionName\<close> on a line of the shape that \<open>buildSignatureString\<close> writes.\<close>

lemma drop_length_append: "drop (length xs) (xs @ ys) = ys"
  by simp

lemma extract_core:
  assumes n: "goIdentifier name"
    and R: "R = [] \<or> (\<exists>rc. R = CHR ''('' # rc @ '') '' \<and> \<not> hasCloseSpace (CHR ''('' # rc))"
  shows "extractFunctionName (''func '' @ R @ name @ CHR ''('' # P @ CHR '')'' # T) = Inr name"
proof -
  define line0 where "line0 = ''func '' @ R @ name @ CHR ''('' # P @ CHR '')'' # T"
  have l0: "line0 = (''func '' @ R @ name @ CHR ''('' # P) @ CHR '')'' # T"
    by (simp add: line0_def)
  have "spacePrefixLen ((''func '' @ R @ name @ CHR ''('' # P) @ CHR '')'' # T) = 0"
    using spacePrefix_ascii[of "CHR ''f''"] by (simp add: asciiSpace_def)
  then obtain T1 where t1: "TrimSpace line0 = (''func '' @ R @ name @ CHR ''('' # P) @ CHR '')'' # T1"
    using TrimSpace_paren[of "''func '' @ R @ name @ CHR ''('' # P" T] l0 by auto
  define line1 where "line1 = ''func '' @ R @ name @ CHR ''('' # P @ CHR '')'' # T1"
  have s1: "TrimSpace line0 = line1" using t1 by (simp add: line1_def)
  have s2: "(HasPrefix line1 ''+'' \<or> HasPrefix line1 ''-'' \<or> HasPrefix line1 '' '') = False"
    by (simp add: line1_def HasPrefix_def)
  have s3: "HasPrefix line1 ''func '' = True" by (simp add: line1_def HasPrefix_def)
  have tp: "TrimPrefix line1 ''func '' = (R @ name @ CHR ''('' # P) @ CHR '')'' # T1"
    by (simp add: TrimPrefix_def line1_def HasPrefix_def)
  have "spacePrefixLen ((R @ name @ CHR ''('' # P) @ CHR '')'' # T1) = 0"
  proof (cases "R = []")
    case True
    then show ?thesis using identifier_spacePrefix[OF n, of "CHR ''('' # P @ CHR '')'' # T1"] by simp
  next
    case False
    then obtain rc where "R = CHR ''('' # rc @ '') ''" using R by blast
    then show ?thesis using spacePrefix_ascii[of "CHR ''(''"] by (simp add: asciiSpace_def)
  qed
  then obtain T2 where t2: "TrimSpace (TrimPrefix line1 ''func '') = (R @ name @ CHR ''('' # P) @ CHR '')'' # T2"
    using TrimSpace_paren[of "R @ name @ CHR ''('' # P" T1] tp by auto
  define line3 where "line3 = R @ name @ CHR ''('' # P @ CHR '')'' # T2"
  have s4: "TrimSpace (TrimPrefix line1 ''func '') = line3" using t2 by (simp add: line3_def)
  have "\<exists>T3. (if HasPrefix line3 ''(''
                   then (if Index line3 '') '' \<noteq> - 1
                         then map_sum id TrimSpace (sliceFrom line3 (Index line3 '') '' + 2))
                         else Inr line3)
                   else Inr line3) = Inr (name @ CHR ''('' # P @ CHR '')'' # T3)"
  proof (cases "R = []")
    case True
    then have "\<not> HasPrefix line3 ''(''"
      using identifier_hd[OF n] by (cases name) (auto simp: line3_def HasPrefix_def)
    then show ?thesis using True by (auto simp: line3_def)
  next
    case False
    then obtain rc where rc: "R = CHR ''('' # rc @ '') ''" "\<not> hasCloseSpace (CHR ''('' # rc)"
      using R by blast
    have l3: "line3 = (CHR ''('' # rc) @ '') '' @ (name @ CHR ''('' # P @ CHR '')'' # T2)"
      by (simp add: line3_def rc)
    have hp: "HasPrefix line3 ''(''" by (simp add: line3_def rc HasPrefix_def)
    have ix: "Index line3 '') '' = int (length (CHR ''('' # rc))"
      unfolding l3 by (rule Index_close_space[OF rc(2)])
    have nn: "nat (int (length (CHR ''('' # rc)) + 2) = length ((CHR ''('' # rc) @ '') '')"
      by simp
    have l3': "line3 = ((CHR ''('' # rc) @ '') '') @ (name @ CHR ''('' # P @ CHR '')'' # T2)"
      by (simp add: l3)
    have dr: "drop (nat (int (length (CHR ''('' # rc)) + 2)) line3
               = name @ CHR ''('' # P @ CHR '')'' # T2"
      unfolding nn by (subst l3') (rule drop_length_append)
    have "sliceFrom line3 (int (length (CHR ''('' # rc)) + 2)
            = Inr (drop (nat (int (length (CHR ''('' # rc)) + 2)) line3)"
      by (simp add: sliceFrom_def l3)
    then have sf: "sliceFrom line3 (Index line3 '') '' + 2) = Inr (name @ CHR ''('' # P @ CHR '')'' # T2)"
      unfolding ix dr .
    have "spacePrefixLen ((name @ CHR ''('' # P) @ CHR '')'' # T2) = 0"
      using identifier_spacePrefix[OF n, of "CHR ''('' # P @ CHR '')'' # T2"] by simp
    then obtain T3 where "TrimSpace ((name @ CHR ''('' # P) @ CHR '')'' # T2) = (name @ CHR ''('' # P) @ CHR '')'' # T3"
      using TrimSpace_paren by blast
    then have "TrimSpace (name @ CHR ''('' # P @ CHR '')'' # T2) = name @ CHR ''('' # P @ CHR '')'' # T3"
      by simp
    then show ?thesis using hp sf ix by (auto simp: Let_def)
  qed
  then obtain T3 where s5: "(if HasPrefix line3 ''(''
                   then (if Index line3 '') '' \<noteq> - 1
                         then map_sum id TrimSpace (sliceFrom line3 (Index line3 '') '' + 2))
                         else Inr line3)
                   else Inr line3) = Inr (name @ CHR ''('' # P @ CHR '')'' # T3)"
    by blast
  define line4 where "line4 = name @ CHR ''('' # P @ CHR '')'' # T3"
  have s6: "Index line4 ''('' = int (length name)"
    unfolding line4_def using Index_char[of "CHR ''(''" name] identifier_plain[OF n] by simp
  have s7: "sliceTo line4 (int (length name)) = Inr name"
    by (simp add: sliceTo_def line4_def)
  have s8: "TrimSpace name = name" by (rule TrimSpace_identifier[OF n])
  have s9: "Trim name [CHR '' '', CHR 0x09, CHR ''*'', CHR ''&'', CHR ''['', CHR '']''] = name"
    by (rule Trim_identifier[OF n])
  have "extractFunctionName line0 = Inr name"
    unfolding extractFunctionName_def s1 Let_def s2 if_False sum.case s3 not_True_eq_False s4
      s5[folded line4_def] s6
    using s7 s8 s9 by simp
  then show ?thesis by (simp add: line0_def)
qed

text \<open>The entries of the rendered lists hide no parenthesis and no comma.\<close>

lemma writeEntries_join: "writeEntries sig es = sig @ joinEntries es"
  by (induction es arbitrary: sig) auto

lemma buildSignatureString_shape:
  "buildSignatureString fi =
     ''func '' @ receiverText fi @ Name fi
       @ CHR ''('' # joinEntries (map (\<lambda>p. (ParamName p, ParamType p)) (Parameters fi))
       @ CHR '')'' # returnsText fi"
  by (auto simp: buildSignatureString_def receiverText_def returnsText_def writeEntries_join Let_def
      split: option.splits bool.splits)

lemma split_plain:
  "CHR ''('' \<notin> set s \<Longrightarrow> CHR '')'' \<notin> set s
     \<Longrightarrow> splitAtClose d acc (s @ rest) = splitAtClose d (acc @ s) rest"
  by (induction s arbitrary: acc) auto

lemma commas_plain:
  "CHR ''('' \<notin> set s \<Longrightarrow> CHR '')'' \<notin> set s \<Longrightarrow> CHR '','' \<notin> set s
     \<Longrightarrow> topCommas d (s @ rest) = topCommas d rest"
  by (induction s) auto

lemma type_transparent:
  "wfExpr e \<Longrightarrow>
     splitAtClose d acc (extractTypeString e @ rest) = splitAtClose d (acc @ extractTypeString e) rest
     \<and> topCommas d (extractTypeString e @ rest) = topCommas d rest"
proof (induction e arbitrary: d acc rest)
  case (Ident x)
  then show ?case using identifier_plain[of x] split_plain commas_plain by simp
next
  case (ChanType dir e)
  then show ?case by (cases dir) simp_all
next
  case (SelectorExpr e sel)
  then show ?case
    using identifier_plain[of sel] split_plain[of sel] commas_plain[of sel] by simp
qed simp_all


lemma entry_transparent:
  assumes "n = [] \<or> goIdentifier n" "wfExpr e"
  shows "splitAtClose d acc (((if n \<noteq> [] then n @ '' '' else []) @ extractTypeString e) @ rest)
           = splitAtClose d (acc @ (if n \<noteq> [] then n @ '' '' else []) @ extractTypeString e) rest"
    and "topCommas d (((if n \<noteq> [] then n @ '' '' else []) @ extractTypeString e) @ rest)
           = topCommas d rest"
    and "(if n \<noteq> [] then n @ '' '' else []) @ extractTypeString e \<noteq> []"
    and "hd ((if n \<noteq> [] then n @ '' '' else []) @ extractTypeString e) \<noteq> CHR ''(''"
proof -
  have pl: "n \<noteq> [] \<Longrightarrow> CHR ''('' \<notin> set (n @ '' '') \<and> CHR '')'' \<notin> set (n @ '' '')
      \<and> CHR '','' \<notin> set (n @ '' '')"
    using assms(1) identifier_plain[of n] by auto
  show "splitAtClose d acc (((if n \<noteq> [] then n @ '' '' else []) @ extractTypeString e) @ rest)
           = splitAtClose d (acc @ (if n \<noteq> [] then n @ '' '' else []) @ extractTypeString e) rest"
  proof (cases "n = []")
    case True
    then show ?thesis using type_transparent[OF assms(2)] by simp
  next
    case False
    have "splitAtClose d acc ((n @ '' '') @ extractTypeString e @ rest)
            = splitAtClose d (acc @ n @ '' '') (extractTypeString e @ rest)"
      using split_plain[of "n @ '' ''" d acc] pl[OF False] by simp
    then show ?thesis using False type_transparent[OF assms(2), of d "acc @ n @ '' ''" rest] by simp
  qed
  show "topCommas d (((if n \<noteq> [] then n @ '' '' else []) @ extractTypeString e) @ rest)
           = topCommas d rest"
  proof (cases "n = []")
    case True
    then show ?thesis using type_transparent[OF assms(2)] by simp
  next
    case False
    have "topCommas d ((n @ '' '') @ extractTypeString e @ rest)
            = topCommas d (extractTypeString e @ rest)"
      using commas_plain[of "n @ '' ''" d] pl[OF False] by simp
    then show ?thesis using False type_transparent[OF assms(2), of d _ rest] by simp
  qed
  show "(if n \<noteq> [] then n @ '' '' else []) @ extractTypeString e \<noteq> []"
    using typeString_shape[OF assms(2)] by simp
  show "hd ((if n \<noteq> [] then n @ '' '' else []) @ extractTypeString e) \<noteq> CHR ''(''"
    using typeString_shape[OF assms(2)] assms(1) identifier_hd[of n] by (cases n) auto
qed

lemma entriesOK_Cons:
  "entriesOK ((n, t) # es) \<longleftrightarrow>
     (n = [] \<or> goIdentifier n) \<and> (\<exists>e. wfExpr e \<and> t = extractTypeString e) \<and> entriesOK es"
  by (auto simp: entriesOK_def)

lemma join_split:
  "entriesOK es \<Longrightarrow>
     splitAtClose 0 acc (joinEntries es @ CHR '')'' # T) = Some (acc @ joinEntries es, T)"
proof (induction es arbitrary: acc)
  case Nil
  then show ?case by simp
next
  case (Cons a es)
  obtain n t where a: "a = (n, t)" by (cases a)
  from Cons.prems a obtain e where n: "n = [] \<or> goIdentifier n" and e: "wfExpr e"
    and t: "t = extractTypeString e" and rest: "entriesOK es"
    by (auto simp: entriesOK_Cons)
  let ?E = "(if n \<noteq> [] then n @ '' '' else []) @ extractTypeString e"
  let ?sep = "(if es \<noteq> [] then '', '' else [])"
  have "splitAtClose 0 acc (?E @ (?sep @ joinEntries es @ CHR '')'' # T))
          = splitAtClose 0 (acc @ ?E) (?sep @ joinEntries es @ CHR '')'' # T)"
    using entry_transparent(1)[OF n e, of 0 acc] by simp
  also have "\<dots> = splitAtClose 0 (acc @ ?E @ ?sep) (joinEntries es @ CHR '')'' # T)"
    by simp
  also have "\<dots> = Some ((acc @ ?E @ ?sep) @ joinEntries es, T)"
    by (rule Cons.IH[OF rest])
  finally show ?case by (simp add: a t)
qed

lemma join_commas:
  "entriesOK es \<Longrightarrow> topCommas 0 (joinEntries es @ rest) = (length es - 1) + topCommas 0 rest"
proof (induction es)
  case Nil
  then show ?case by simp
next
  case (Cons a es)
  obtain n t where a: "a = (n, t)" by (cases a)
  from Cons.prems a obtain e where n: "n = [] \<or> goIdentifier n" and e: "wfExpr e"
    and t: "t = extractTypeString e" and rest: "entriesOK es"
    by (auto simp: entriesOK_Cons)
  let ?E = "(if n \<noteq> [] then n @ '' '' else []) @ extractTypeString e"
  let ?sep = "(if es \<noteq> [] then '', '' else [])"
  have "topCommas 0 (?E @ (?sep @ joinEntries es @ rest)) = topCommas 0 (?sep @ joinEntries es @ rest)"
    using entry_transparent(2)[OF n e, of 0] by simp
  also have "\<dots> = (length (a # es) - 1) + topCommas 0 rest"
    using Cons.IH[OF rest] by (cases es) auto
  finally show ?case by (simp add: a t)
qed

lemma join_nonempty: "entriesOK es \<Longrightarrow> es \<noteq> [] \<Longrightarrow> joinEntries es \<noteq> []"
proof (cases es)
  case Nil
  assume "es \<noteq> []" then show ?thesis using Nil by simp
next
  case (Cons a rest)
  assume ok: "entriesOK es"
  obtain n t where a: "a = (n, t)" by (cases a)
  from ok Cons a obtain e where "n = [] \<or> goIdentifier n" "wfExpr e" "t = extractTypeString e"
    by (auto simp: entriesOK_Cons)
  then show ?thesis using entry_transparent(3)[of n e] Cons a by auto
qed

lemma join_hd: "entriesOK es \<Longrightarrow> es \<noteq> [] \<Longrightarrow> hd (joinEntries es) \<noteq> CHR ''(''"
proof (cases es)
  case Nil
  assume "es \<noteq> []" then show ?thesis using Nil by simp
next
  case (Cons a rest)
  assume ok: "entriesOK es"
  obtain n t where a: "a = (n, t)" by (cases a)
  from ok Cons a obtain e where x: "n = [] \<or> goIdentifier n" "wfExpr e" "t = extractTypeString e"
    by (auto simp: entriesOK_Cons)
  have "hd (joinEntries es)
          = hd ((if n \<noteq> [] then n @ '' '' else []) @ extractTypeString e)"
    using entry_transparent(3)[OF x(1,2)] Cons a x(3) by (simp add: hd_append)
  then show ?thesis using entry_transparent(4)[OF x(1,2)] by simp
qed

lemma entryCount_join: "entriesOK es \<Longrightarrow> entryCount (joinEntries es) = length es"
proof (cases "es = []")
  case True
  then show ?thesis by (simp add: entryCount_def)
next
  case False
  assume ok: "entriesOK es"
  have "topCommas 0 (joinEntries es @ []) = length es - 1" using join_commas[OF ok, of "[]"] by simp
  then show ?thesis using join_nonempty[OF ok False] False
    by (cases es) (simp_all add: entryCount_def)
qed

lemma returnCount_rendered:
  assumes "entriesOK rs"
  shows "returnCount (if length rs > 1 then '' ('' @ joinEntries rs @ '')''
                      else if length rs > 0 then '' '' @ joinEntries rs else []) = length rs"
proof -
  consider "rs = []" | "length rs = 1" | "length rs > 1" by (cases rs; cases "tl rs") auto
  then show ?thesis
  proof cases
    case 1
    then show ?thesis by (simp add: returnCount_def HasPrefix_def)
  next
    case 2
    then have ne: "rs \<noteq> []" by auto
    have j: "joinEntries rs \<noteq> []" "hd (joinEntries rs) \<noteq> CHR ''(''"
      using join_nonempty[OF assms ne] join_hd[OF assms ne] by simp_all
    then have np: "\<not> HasPrefix (joinEntries rs) ''(''"
      by (cases "joinEntries rs") (auto simp: HasPrefix_def)
    have sp: "HasPrefix ('' '' @ joinEntries rs) '' ''" by (simp add: HasPrefix_def)
    have "returnCount ('' '' @ joinEntries rs) = 1"
      unfolding returnCount_def Let_def using sp np j by simp
    then show ?thesis using 2 by simp
  next
    case 3
    have sp: "HasPrefix ('' ('' @ joinEntries rs @ '')'') '' ''" by (simp add: HasPrefix_def)
    have dr: "drop 1 ('' ('' @ joinEntries rs @ '')'') = ''('' @ joinEntries rs @ '')''" by simp
    have hp: "HasPrefix (''('' @ joinEntries rs @ '')'') ''(''" by (simp add: HasPrefix_def)
    have d2: "drop 1 (''('' @ joinEntries rs @ '')'') = joinEntries rs @ CHR '')'' # []" by simp
    have sc: "splitAtClose 0 [] (joinEntries rs @ CHR '')'' # []) = Some (joinEntries rs, [])"
      using join_split[OF assms, of "[]" "[]"] by simp
    have "returnCount ('' ('' @ joinEntries rs @ '')'') = entryCount (joinEntries rs)"
      unfolding returnCount_def Let_def using sp by (simp only: if_True dr hp d2 sc) simp
    then show ?thesis using 3 entryCount_join[OF assms] by simp
  qed
qed

lemma counts_core:
  assumes n: "goIdentifier name"
    and R: "R = [] \<or> (\<exists>rc. R = CHR ''('' # rc @ '') '' \<and> \<not> hasCloseSpace (CHR ''('' # rc))"
    and ps: "entriesOK ps"
    and rc: "returnCount Tret = k"
  shows "signatureCounts (''func '' @ R @ name @ CHR ''('' # joinEntries ps @ CHR '')'' # Tret)
           = Some (length ps, k)"
proof -
  define sig where "sig = ''func '' @ R @ name @ CHR ''('' # joinEntries ps @ CHR '')'' # Tret"
  define line where "line = R @ name @ CHR ''('' # joinEntries ps @ CHR '')'' # Tret"
  define line' where "line' = name @ CHR ''('' # joinEntries ps @ CHR '')'' # Tret"
  have s1: "TrimPrefix sig ''func '' = line"
    by (simp add: TrimPrefix_def sig_def line_def HasPrefix_def)
  have s2: "(if HasPrefix line ''('' \<and> Index line '') '' \<noteq> - 1
             then drop (nat (Index line '') '' + 2)) line else line) = line'"
  proof (cases "R = []")
    case True
    then have "\<not> HasPrefix line ''(''"
      using identifier_hd[OF n] by (cases name) (auto simp: line_def HasPrefix_def)
    then show ?thesis using True by (simp add: line_def line'_def)
  next
    case False
    then obtain rc where rc: "R = CHR ''('' # rc @ '') ''" "\<not> hasCloseSpace (CHR ''('' # rc)"
      using R by blast
    have l: "line = (CHR ''('' # rc) @ '') '' @ line'"
      by (simp add: line_def line'_def rc)
    have ix: "Index line '') '' = int (length (CHR ''('' # rc))"
      unfolding l by (rule Index_close_space[OF rc(2)])
    have nn: "nat (int (length (CHR ''('' # rc)) + 2) = length ((CHR ''('' # rc) @ '') '')"
      by simp
    have l2: "line = ((CHR ''('' # rc) @ '') '') @ line'" by (simp add: l)
    have dr: "drop (nat (int (length (CHR ''('' # rc)) + 2)) line = line'"
      unfolding nn by (subst l2) (rule drop_length_append)
    have hp: "HasPrefix line ''(''" by (simp add: l HasPrefix_def)
    show ?thesis unfolding ix dr using hp by simp
  qed
  have s3: "Index line' ''('' = int (length name)"
    unfolding line'_def using Index_char[of "CHR ''(''" name] identifier_plain[OF n] by simp
  have nn: "nat (int (length name) + 1) = length (name @ ''('')" by simp
  have l3: "line' = (name @ ''('') @ (joinEntries ps @ CHR '')'' # Tret)" by (simp add: line'_def)
  have s4: "drop (nat (int (length name) + 1)) line' = joinEntries ps @ CHR '')'' # Tret"
    unfolding nn by (subst l3) (rule drop_length_append)
  have s5: "splitAtClose 0 [] (joinEntries ps @ CHR '')'' # Tret) = Some (joinEntries ps, Tret)"
    using join_split[OF ps, of "[]" Tret] by simp
  have "signatureCounts sig = Some (length ps, k)"
    unfolding signatureCounts_def Let_def s1 s2 s3 s4 s5
    using entryCount_join[OF ps] rc by simp
  then show ?thesis by (simp add: sig_def)
qed

text \<open>What the analyzer produces from a declaration whose names are identifiers.\<close>

lemma fieldParameters_ok:
  "wfField f \<Longrightarrow> entriesOK (map (\<lambda>p. (ParamName p, ParamType p)) (fieldParameters f))"
  by (auto simp: wfField_def fieldParameters_def entriesOK_def Let_def list_all_iff)

lemma fieldReturns_ok:
  "wfField f \<Longrightarrow> entriesOK (map (\<lambda>r. (RetName r, RetType r)) (fieldReturns f))"
  by (auto simp: wfField_def fieldReturns_def entriesOK_def Let_def list_all_iff)

lemma entriesOK_append: "entriesOK (xs @ ys) \<longleftrightarrow> entriesOK xs \<and> entriesOK ys"
  by (auto simp: entriesOK_def)

lemma parameters_ok:
  "list_all wfField fs
     \<Longrightarrow> entriesOK (map (\<lambda>p. (ParamName p, ParamType p)) (concat (map fieldParameters fs)))"
  by (induction fs) (simp_all add: entriesOK_def[of "[]"] entriesOK_append fieldParameters_ok)

lemma returns_ok:
  "list_all wfField fs
     \<Longrightarrow> entriesOK (map (\<lambda>r. (RetName r, RetType r)) (concat (map fieldReturns fs)))"
  by (induction fs) (simp_all add: entriesOK_def[of "[]"] entriesOK_append fieldReturns_ok)

lemma analyzed_entries:
  assumes "wfSignature d"
  shows "entriesOK (map (\<lambda>p. (ParamName p, ParamType p)) (Parameters (analyzeFunctionDecl pkgOf d path)))"
    and "entriesOK (map (\<lambda>r. (RetName r, RetType r)) (Returns (analyzeFunctionDecl pkgOf d path)))"
  using assms parameters_ok returns_ok
  by (auto simp: analyzeFunctionDecl_fields wfSignature_def wfFieldList_def entriesOK_def[of "[]"]
      split: option.splits)

lemma analyzed_receiver:
  assumes "wfSignature d"
  shows "receiverText (analyzeFunctionDecl pkgOf d path) = []
       \<or> (\<exists>rc. receiverText (analyzeFunctionDecl pkgOf d path) = CHR ''('' # rc @ '') ''
              \<and> \<not> hasCloseSpace (CHR ''('' # rc))"
proof (cases "declReceiver d")
  case None
  then show ?thesis by (simp add: receiverText_def analyzeFunctionDecl_fields)
next
  case (Some r)
  then obtain receiver rest where rv: "Recv d = Some (receiver # rest)"
    and r: "r = \<lparr>RecvName = (case Names receiver of [] \<Rightarrow> [] | n # ns \<Rightarrow> n),
                 RecvType = extractTypeString (FieldType receiver)\<rparr>"
    by (auto simp: declReceiver_def split: option.splits list.splits)
  have wf: "wfField receiver" using assms rv by (simp add: wfSignature_def wfFieldList_def)
  then have ty: "wfExpr (FieldType receiver)" by (simp add: wfField_def)
  have nm: "RecvName r = [] \<or> goIdentifier (RecvName r)"
    using wf r by (cases "Names receiver") (simp_all add: wfField_def)
  let ?rc = "(if RecvName r \<noteq> [] then RecvName r @ '' '' else []) @ RecvType r"
  have rtxt: "receiverText (analyzeFunctionDecl pkgOf d path) = CHR ''('' # ?rc @ '') ''"
    using Some by (simp add: receiverText_def analyzeFunctionDecl_fields)
  have shape: "RecvType r \<noteq> []" "hd (RecvType r) \<noteq> CHR '' ''" "\<not> hasCloseSpace (RecvType r)"
    using typeString_shape[OF ty] r by simp_all
  have "\<not> hasCloseSpace ?rc"
  proof (cases "RecvName r = []")
    case True
    then show ?thesis using shape by simp
  next
    case False
    then have g: "goIdentifier (RecvName r)" using nm by simp
    have "\<not> hasCloseSpace (RecvName r @ '' '')"
      using no_paren_no_closeSpace[of "RecvName r @ '' ''"] identifier_plain[OF g] by simp
    then show ?thesis
      using False shape hasCloseSpace_append[of "RecvName r @ '' ''" "RecvType r"]
      by simp
  qed
  moreover have "?rc \<noteq> []" "hd ?rc \<noteq> CHR '' ''"
    using shape nm identifier_hd[of "RecvName r"] by (auto simp: hd_append)
  ultimately have "\<not> hasCloseSpace (CHR ''('' # ?rc)"
    by (simp add: hasCloseSpace_Cons del: hasCloseSpace.simps(1))
  then show ?thesis using rtxt by blast
qed

lemma buildSignatureString_fields:
  assumes "Name f = Name g" "IsMethod f = IsMethod g" "Receiver f = Receiver g"
    "Parameters f = Parameters g" "Returns f = Returns g"
  shows "buildSignatureString f = buildSignatureString g"
proof -
  have "receiverText f = receiverText g" using assms(2,3) by (simp add: receiverText_def)
  moreover have "returnsText f = returnsText g" using assms(5) by (simp add: returnsText_def)
  ultimately show ?thesis
    unfolding buildSignatureString_shape using assms(1,4) by simp
qed

lemma Signature_analyzeFunctionDecl:
  "Signature (analyzeFunctionDecl pkgOf d path)
     = buildSignatureString (analyzeFunctionDecl pkgOf d path)"
proof -
  define f0 where "f0 = \<lparr>Name = DeclName d, Package = pkgOf path, File = path,
                StartLine = PosLine d, EndLine = EndPosLine d,
                Signature = [],
                Parameters = (case Params d of
                                None \<Rightarrow> []
                              | Some fs \<Rightarrow> concat (map fieldParameters fs)),
                Returns = (case Results d of
                             None \<Rightarrow> []
                           | Some fs \<Rightarrow> concat (map fieldReturns fs)),
                IsMethod = (declReceiver d \<noteq> None),
                Receiver = declReceiver d,
                Comments = (case Doc d of
                              None \<Rightarrow> []
                            | Some comments \<Rightarrow> map (\<lambda>text. TrimPrefix text ''//'') comments),
                Complexity = zeroComplexity,
                Body = []\<rparr>"
  have "Signature (analyzeFunctionDecl pkgOf d path) = buildSignatureString f0"
    by (simp add: analyzeFunctionDecl_def Let_def f0_def split: option.splits)
  also have "\<dots> = buildSignatureString (analyzeFunctionDecl pkgOf d path)"
    by (rule buildSignatureString_fields) (simp_all add: analyzeFunctionDecl_fields f0_def)
  finally show ?thesis .
qed

text \<open>
  C9. Round trip: for every \<open>FunctionInfo\<close> that the analyzer produces from a
  declaration whose names are identifiers, \<open>extractFunctionName\<close> applied to the string
  that \<open>buildSignatureString\<close> renders (which is the \<open>Signature\<close> field) returns the
  descriptor's \<open>Name\<close>, for plain functions and for methods, whose receiver clause is
  stripped; and the parameter and return counts read off the rendered string are the
  lengths of the descriptor's \<open>Parameters\<close> and \<open>Returns\<close>.
\<close>

theorem signature_round_trip:
  assumes "wfSignature d"
  shows "extractFunctionName (buildSignatureString (analyzeFunctionDecl pkgOf d path))
           = Inr (Name (analyzeFunctionDecl pkgOf d path))
       \<and> extractFunctionName (Signature (analyzeFunctionDecl pkgOf d path))
           = Inr (Name (analyzeFunctionDecl pkgOf d path))
       \<and> signatureCounts (buildSignatureString (analyzeFunctionDecl pkgOf d path))
           = Some (length (Parameters (analyzeFunctionDecl pkgOf d path)),
                   length (Returns (analyzeFunctionDecl pkgOf d path)))"
proof -
  let ?fi = "analyzeFunctionDecl pkgOf d path"
  have n: "goIdentifier (Name ?fi)"
    using assms by (simp add: analyzeFunctionDecl_fields wfSignature_def)
  note R = analyzed_receiver[OF assms, of pkgOf path]
  note E = analyzed_entries[OF assms, of pkgOf path]
  have x: "extractFunctionName (buildSignatureString ?fi) = Inr (Name ?fi)"
    unfolding buildSignatureString_shape by (rule extract_core[OF n R])
  have "returnsText ?fi =
          (if length (map (\<lambda>r. (RetName r, RetType r)) (Returns ?fi)) > 1
           then '' ('' @ joinEntries (map (\<lambda>r. (RetName r, RetType r)) (Returns ?fi)) @ '')''
           else if length (map (\<lambda>r. (RetName r, RetType r)) (Returns ?fi)) > 0
           then '' '' @ joinEntries (map (\<lambda>r. (RetName r, RetType r)) (Returns ?fi)) else [])"
    unfolding returnsText_def length_map ..
  then have rc: "returnCount (returnsText ?fi) = length (Returns ?fi)"
    using returnCount_rendered[OF E(2)] by (simp only: length_map)
  have "signatureCounts (buildSignatureString ?fi)
          = Some (length (map (\<lambda>p. (ParamName p, ParamType p)) (Parameters ?fi)), length (Returns ?fi))"
    unfolding buildSignatureString_shape by (rule counts_core[OF n R E(1) rc])
  then show ?thesis using x by (simp add: Signature_analyzeFunctionDecl)
qed

theorem signature_round_trip_witness:
  "wfSignature loadDecl
   \<and> buildSignatureString (analyzeFunctionDecl (\<lambda>path. ''store'') loadDecl ''store.go'')
       = ''func (s *Store) Load(key string, ns string, dec func(...)) (val []byte, err error)''
   \<and> extractFunctionName
        ''func (s *Store) Load(key string, ns string, dec func(...)) (val []byte, err error)''
       = Inr ''Load''
   \<and> signatureCounts
        ''func (s *Store) Load(key string, ns string, dec func(...)) (val []byte, err error)''
       = Some (3, 2)"
proof -
  have wf: "wfSignature loadDecl"
    by (simp add: wfSignature_def wfFieldList_def wfField_def loadDecl_def goIdentifier_def
        identByte_def)
  have b: "buildSignatureString (analyzeFunctionDecl (\<lambda>path. ''store'') loadDecl ''store.go'')
       = ''func (s *Store) Load(key string, ns string, dec func(...)) (val []byte, err error)''"
    by (simp add: buildSignatureString_def analyzeFunctionDecl_fields declReceiver_def
        loadDecl_def fieldParameters_def fieldReturns_def Let_def)
  have f: "Name (analyzeFunctionDecl (\<lambda>path. ''store'') loadDecl ''store.go'') = ''Load''"
    "length (Parameters (analyzeFunctionDecl (\<lambda>path. ''store'') loadDecl ''store.go'')) = 3"
    "length (Returns (analyzeFunctionDecl (\<lambda>path. ''store'') loadDecl ''store.go'')) = 2"
    by (simp_all add: analyzeFunctionDecl_fields loadDecl_def fieldParameters_def fieldReturns_def
        Let_def)
  show ?thesis
    using signature_round_trip[OF wf, of "\<lambda>path. ''store''" "''store.go''"] wf
    unfolding b f by simp
qed

end
